theory Spec2Isabelle
  imports Complex_Main "HOL-Library.Word" "HOL-Library.AList"
begin

section \<open>The peer-to-peer transfer core of app.js\<close>

text \<open>
  A shallow embedding of the protocol part of \<^verbatim>\<open>src/app.js\<close>: heartbeat and liveness
  check, the transfer-timeout sweep, the dispatch of inbound messages, the chunked send
  loop and the reassembly of received chunks.

  Conventions of the embedding.
  \<^item> The globals of the script (\<^verbatim>\<open>connection\<close>, \<^verbatim>\<open>receivingFiles\<close>,
    \<^verbatim>\<open>completedFiles\<close>, \<^verbatim>\<open>lastHeartbeat\<close>, the three timers) are the fields of one
    record \<open>state\<close>; every function takes the state and returns the new one.
  \<^item> An exception that leaves an event handler is appended to the field \<open>uncaught\<close>;
    the handler stops there and what it did before the throw remains.
  \<^item> \<^verbatim>\<open>Date.now()\<close> is an argument \<open>now\<close> (milliseconds, a natural number); the
    result of \<^verbatim>\<open>generateFileId()\<close> is an argument \<open>fileId\<close>.
  \<^item> Calls into the page (\<^verbatim>\<open>showToast\<close>, \<^verbatim>\<open>updateFileProgress\<close>, \<^verbatim>\<open>updateFileStatus\<close>,
    \<^verbatim>\<open>createFileItemElement\<close>, ...) are appended to a log \<open>ui\<close> in call order.
  \<^item> \<^verbatim>\<open>connection.send(m)\<close> appends \<open>m\<close> to the list \<open>sent\<close> of the connection: the
    messages handed to the channel, in order.
  \<^item> JavaScript numbers are exact here: byte counts, indices and times are naturals
    (all below \<open>2^53\<close> for any file a browser holds), progress values are rationals, with
    \<open>Infinity\<close> and \<open>NaN\<close> as extra values where the script divides by zero.
  \<^item> A JavaScript array has at most \<open>2^32 - 1\<close> slots: \<^verbatim>\<open>new Array(n)\<close> throws a
    \<^verbatim>\<open>RangeError\<close> from \<open>n = 2^32\<close> on, and an index of \<open>2^32 - 1\<close> or more is not a
    slot of the array.
  \<^item> A message has the fields that the sending side of the script gives it, with values of
    their types, and no other field; its identifier, index and counts are whatever the peer
    chose.
  \<^item> \<^verbatim>\<open>receivingFiles\<close> is a plain object: a read of a key that is not a property of
    its own goes on to its prototype. Its own properties are kept in insertion order (keys
    that are decimal numbers would come first in a \<^verbatim>\<open>for ... in\<close>; this changes the
    order of notices only).
\<close>

subsection \<open>Configuration\<close>

record config =
  CHUNK_SIZE :: nat
  HEARTBEAT_INTERVAL :: nat
  HEARTBEAT_TIMEOUT :: nat
  TRANSFER_TIMEOUT :: nat

definition CONFIG :: config where
  "CONFIG = \<lparr>CHUNK_SIZE = 64 * 1024, HEARTBEAT_INTERVAL = 5000,
             HEARTBEAT_TIMEOUT = 15000, TRANSFER_TIMEOUT = 30000\<rparr>"

subsection \<open>Values on the wire and in the page\<close>

type_synonym byte = "8 word"
type_synonym bytes = "byte list"

text \<open>A JavaScript string is a sequence of UTF-16 code units.\<close>

type_synonym jsstring = "16 word list"

type_synonym fileId = string

text \<open>The payload of a \<^verbatim>\<open>file-meta\<close> message.\<close>

record fileMeta =
  fileId :: fileId
  name :: string
  size_m :: nat
  fileType :: string
  totalChunks :: nat

text \<open>
  The five message kinds of \<^verbatim>\<open>handleData\<close>; \<open>Unknown\<close> stands for any other
  \<^verbatim>\<open>type\<close> tag.
\<close>

datatype message =
    Heartbeat nat
  | Text jsstring nat
  | FileMeta fileMeta
  | FileChunk fileId nat bytes
  | FileComplete fileId
  | Unknown string

text \<open>A \<^verbatim>\<open>File\<close> chosen by the user; \<^verbatim>\<open>file.size\<close> is the length of its content.\<close>

record File =
  name_f :: string
  type_f :: string
  content :: bytes

definition size_f :: "File \<Rightarrow> nat" where
  "size_f f = length (content f)"

text \<open>A \<^verbatim>\<open>Blob\<close>: its bytes and its content type.\<close>

record blob =
  blob_bytes :: bytes
  blob_type :: string

text \<open>
  A number as \<^verbatim>\<open>(a / b) * 100\<close> yields it for non-negative integers \<open>a\<close>, \<open>b\<close>:
  a quotient, or \<open>Infinity\<close> (\<open>a / 0\<close> with \<open>a > 0\<close>), or \<open>NaN\<close> (\<open>0 / 0\<close>).
\<close>

datatype jsnum = Num rat | PosInf | NaN

definition percent :: "nat \<Rightarrow> nat \<Rightarrow> jsnum" where
  "percent a b =
     (if b = 0 then (if a = 0 then NaN else PosInf)
      else Num (of_nat a / of_nat b * 100))"

text \<open>The comparison \<^verbatim>\<open><=\<close> of JavaScript on these numbers: false whenever \<open>NaN\<close> is involved.\<close>

fun js_le :: "jsnum \<Rightarrow> jsnum \<Rightarrow> bool" where
  "js_le (Num a) (Num b) = (a \<le> b)"
| "js_le (Num a) PosInf = True"
| "js_le PosInf PosInf = True"
| "js_le _ _ = False"

text \<open>
  The texts of the notifications, in the order of the source:
  \<open>ConnectionLost\<close> "connection lost" (liveness check),
  \<open>PeerDisconnected\<close> "the peer has disconnected" (close event),
  \<open>FileTimedOut n\<close> "file n: transfer timed out",
  \<open>ConnectFirst\<close> "please connect first",
  \<open>FileSent n\<close> "file n sent", \<open>FileReceived n\<close> "file n received",
  \<open>EnterText\<close> "please enter the text to send", \<open>TextSent\<close> "text sent",
  \<open>NewText\<close> "new text received".
\<close>

datatype notice =
    ConnectionLost
  | PeerDisconnected
  | FileTimedOut string
  | ConnectFirst
  | FileSent string
  | FileReceived string
  | EnterText
  | TextSent
  | NewText

text \<open>The second argument of \<^verbatim>\<open>showToast\<close>: \<^verbatim>\<open>''\<close>, \<^verbatim>\<open>'success'\<close> or \<^verbatim>\<open>'error'\<close>.\<close>

datatype severity = Plain | Success | Error

datatype status = Sending | Receiving

text \<open>The calls into the page that the core makes.\<close>

datatype ui_event =
    Toast notice severity
  | FileItem fileId string nat status
  | Progress fileId jsnum
  | StatusCompleted fileId "blob option" "string option"
  | StatusTimeout fileId
  | TextShown jsstring nat
  | ConnectionStatusDisconnected
  | UiReset

subsection \<open>The state of the script\<close>

text \<open>The exceptions that the modelled statements can throw.\<close>

datatype error = TypeError | RangeError

record conn =
  open_c :: bool
  sent :: "message list"

text \<open>An entry of \<^verbatim>\<open>receivingFiles\<close>. A slot of \<open>chunks\<close> is \<open>None\<close> while it is a hole.\<close>

record fileData =
  meta :: fileMeta
  chunks :: "bytes option list"
  receivedSize :: nat
  lastUpdate :: nat

text \<open>An entry of \<^verbatim>\<open>completedFiles\<close>; the object URL is represented by the blob it names.\<close>

record completedFile =
  name_c :: string
  size_c :: nat
  url :: blob
  downloaded :: bool

text \<open>
  \<open>receivingFiles\<close> holds the own properties of the object \<^verbatim>\<open>receivingFiles\<close>.
  \<open>receivingProto\<close> is its prototype: \<open>None\<close> stands for \<^verbatim>\<open>Object.prototype\<close>, which
  every object literal starts with, and \<open>Some f\<close> for an entry \<open>f\<close> that an assignment to the
  key \<^verbatim>\<open>__proto__\<close> has put in its place. \<open>completedFiles\<close> is only written by the
  modelled code; \<open>completedFiles s fid\<close> is the value last assigned under \<open>fid\<close>.
\<close>

record state =
  connection :: "conn option"
  receivingFiles :: "(fileId \<times> fileData) list"
  receivingProto :: "fileData option"
  completedFiles :: "fileId \<rightharpoonup> completedFile"
  lastHeartbeat :: nat
  heartbeatTimer :: bool
  heartbeatCheckTimer :: bool
  transferCheckTimer :: bool
  textInput :: jsstring
  ui :: "ui_event list"
  uncaught :: "error list"

subsection \<open>The object \<^verbatim>\<open>receivingFiles\<close>\<close>

text \<open>
  The members of \<^verbatim>\<open>Object.prototype\<close> other than \<^verbatim>\<open>__proto__\<close>; each is a function.
\<close>

definition prototypeMembers :: "string list" where
  "prototypeMembers =
     [''constructor'', ''hasOwnProperty'', ''isPrototypeOf'', ''propertyIsEnumerable'',
      ''toLocaleString'', ''toString'', ''valueOf'', ''__defineGetter__'', ''__defineSetter__'',
      ''__lookupGetter__'', ''__lookupSetter__'']"

text \<open>
  What the read \<^verbatim>\<open>receivingFiles[id]\<close> yields, as far as the script tells the values
  apart: \<open>Missing\<close> is a value that the test \<^verbatim>\<open>!fileData\<close> takes for absent
  (\<^verbatim>\<open>undefined\<close>, or the number zero), \<open>Entry f\<close> is an entry made by
  \<^verbatim>\<open>receiveFileMeta\<close>, and \<open>Foreign\<close> is any other value (a function, the prototype
  object, or a field of an entry that sits in the prototype chain): it passes the test and
  has neither \<^verbatim>\<open>chunks\<close> nor \<^verbatim>\<open>meta\<close>.
\<close>

datatype found = Missing | Entry fileData | Foreign

text \<open>
  The read \<^verbatim>\<open>receivingFiles[fid]\<close>. An own property wins. Otherwise the key
  \<^verbatim>\<open>__proto__\<close> reads the prototype itself, and any other key is looked for in the
  prototype chain: first in the entry installed as prototype, if there is one (its fields
  \<^verbatim>\<open>meta\<close> and \<^verbatim>\<open>chunks\<close> are objects, \<^verbatim>\<open>receivedSize\<close> and \<^verbatim>\<open>lastUpdate\<close> are
  numbers), then in \<^verbatim>\<open>Object.prototype\<close>.
\<close>

definition lookupFile :: "state \<Rightarrow> fileId \<Rightarrow> found" where
  "lookupFile s fid =
     (case map_of (receivingFiles s) fid of
        Some f \<Rightarrow> Entry f
      | None \<Rightarrow>
          if fid = ''__proto__'' then
            (case receivingProto s of Some p \<Rightarrow> Entry p | None \<Rightarrow> Foreign)
          else
            (case receivingProto s of
               Some p \<Rightarrow>
                 if fid = ''meta'' \<or> fid = ''chunks'' then Foreign
                 else if fid = ''receivedSize'' then (if receivedSize p = 0 then Missing else Foreign)
                 else if fid = ''lastUpdate'' then (if lastUpdate p = 0 then Missing else Foreign)
                 else if fid \<in> set prototypeMembers then Foreign
                 else Missing
             | None \<Rightarrow> if fid \<in> set prototypeMembers then Foreign else Missing))"

text \<open>
  The write \<^verbatim>\<open>receivingFiles[fid] = f\<close>: an own property is overwritten in its place;
  otherwise the key \<^verbatim>\<open>__proto__\<close> runs the setter of \<^verbatim>\<open>Object.prototype\<close>, which makes
  \<open>f\<close> the prototype and creates no property; any other key becomes a new own property.
  The same function writes back an entry that \<^verbatim>\<open>receiveFileChunk\<close> has found by
  \<open>lookupFile\<close> and changed in place: the entry is an own property, or it is the prototype
  found under \<^verbatim>\<open>__proto__\<close>.
\<close>

definition setFile :: "fileId \<Rightarrow> fileData \<Rightarrow> state \<Rightarrow> state" where
  "setFile fid f s =
     (if map_of (receivingFiles s) fid = None \<and> fid = ''__proto__''
      then s\<lparr>receivingProto := Some f\<rparr>
      else s\<lparr>receivingFiles := AList.update fid f (receivingFiles s)\<rparr>)"

text \<open>\<^verbatim>\<open>delete receivingFiles[fid]\<close> removes an own property and nothing else.\<close>

definition deleteFile :: "fileId \<Rightarrow> state \<Rightarrow> state" where
  "deleteFile fid s = s\<lparr>receivingFiles := AList.delete fid (receivingFiles s)\<rparr>"

text \<open>
  An identifier that meets none of these special cases, whatever the prototype is. Every
  identifier made by \<^verbatim>\<open>generateFileId\<close> is one: it starts with \<^verbatim>\<open>file_\<close>.
\<close>

definition ordinary :: "fileId \<Rightarrow> bool" where
  "ordinary fid =
     (fid \<noteq> ''__proto__'' \<and> fid \<notin> set prototypeMembers
      \<and> fid \<notin> set [''meta'', ''chunks'', ''receivedSize'', ''lastUpdate''])"

subsection \<open>Page calls\<close>

definition showToast :: "notice \<Rightarrow> severity \<Rightarrow> state \<Rightarrow> state" where
  "showToast msg type s = s\<lparr>ui := ui s @ [Toast msg type]\<rparr>"

definition createFileItemElement :: "fileId \<Rightarrow> string \<Rightarrow> nat \<Rightarrow> status \<Rightarrow> state \<Rightarrow> state" where
  "createFileItemElement fid nm sz st s = s\<lparr>ui := ui s @ [FileItem fid nm sz st]\<rparr>"

definition updateFileProgress :: "fileId \<Rightarrow> jsnum \<Rightarrow> state \<Rightarrow> state" where
  "updateFileProgress fid progress s = s\<lparr>ui := ui s @ [Progress fid progress]\<rparr>"

definition updateFileStatus :: "fileId \<Rightarrow> blob option \<Rightarrow> string option \<Rightarrow> state \<Rightarrow> state" where
  "updateFileStatus fid downloadUrl fileName s =
     s\<lparr>ui := ui s @ [StatusCompleted fid downloadUrl fileName]\<rparr>"

subsection \<open>Heartbeat and teardown\<close>

definition stopHeartbeat :: "state \<Rightarrow> state" where
  "stopHeartbeat s =
     s\<lparr>heartbeatTimer := False, heartbeatCheckTimer := False, transferCheckTimer := False\<rparr>"

text \<open>
  \<^verbatim>\<open>resetConnection\<close>: the session globals are cleared, the page is reset, the timers are
  stopped: \<^verbatim>\<open>receivingFiles = {}\<close> is a fresh object, without own properties and with
  \<^verbatim>\<open>Object.prototype\<close> as its prototype. \<^verbatim>\<open>completedFiles\<close> is not touched. The globals \<^verbatim>\<open>peer\<close>,
  \<^verbatim>\<open>currentRoomCode\<close>, \<^verbatim>\<open>isHost\<close> and \<^verbatim>\<open>pendingFiles\<close>, which the transfer core
  never reads, are left out of the state.
\<close>

definition resetConnection :: "state \<Rightarrow> state" where
  "resetConnection s =
     stopHeartbeat
       (s\<lparr>connection := None, receivingFiles := [], receivingProto := None,
          ui := ui s @ [ConnectionStatusDisconnected, UiReset]\<rparr>)"

definition startHeartbeat :: "nat \<Rightarrow> state \<Rightarrow> state" where
  "startHeartbeat now s =
     (stopHeartbeat (s\<lparr>lastHeartbeat := now\<rparr>))
       \<lparr>heartbeatTimer := True, heartbeatCheckTimer := True, transferCheckTimer := True\<rparr>"

text \<open>
  The body of the first interval callback: a heartbeat is sent when the connection exists
  and reports open.
\<close>

definition heartbeatSend :: "nat \<Rightarrow> state \<Rightarrow> state" where
  "heartbeatSend now s =
     (case connection s of
        None \<Rightarrow> s
      | Some c \<Rightarrow>
          if open_c c then s\<lparr>connection := Some (c\<lparr>sent := sent c @ [Heartbeat now]\<rparr>)\<rparr>
          else s)"

text \<open>
  The body of the second interval callback, the liveness check. \<open>now - lastHeartbeat s\<close>
  is truncated at zero; the script's difference would be negative there, and neither
  exceeds the timeout.
\<close>

definition heartbeatCheck :: "config \<Rightarrow> nat \<Rightarrow> state \<Rightarrow> state" where
  "heartbeatCheck cfg now s =
     (if now - lastHeartbeat s > HEARTBEAT_TIMEOUT cfg then
        (case connection s of
           None \<Rightarrow> s
         | Some c \<Rightarrow>
             if \<not> open_c c then resetConnection (showToast ConnectionLost Error s)
             else s)
      else s)"

subsection \<open>The transfer-timeout sweep\<close>

text \<open>
  The test \<^verbatim>\<open>file.lastUpdate && now - file.lastUpdate > CONFIG.TRANSFER_TIMEOUT\<close>; the
  first conjunct is false for a time stamp of \<open>0\<close>.
\<close>

definition expired :: "config \<Rightarrow> nat \<Rightarrow> fileData \<Rightarrow> bool" where
  "expired cfg now f = (lastUpdate f \<noteq> 0 \<and> now - lastUpdate f > TRANSFER_TIMEOUT cfg)"

text \<open>
  One round of the \<^verbatim>\<open>for ... in\<close> loop of \<^verbatim>\<open>checkTransferTimeout\<close>, for the own
  key \<open>fid\<close>; the read \<^verbatim>\<open>receivingFiles[fileId]\<close> of an own key yields its entry.
\<close>

definition checkOne :: "config \<Rightarrow> nat \<Rightarrow> state \<Rightarrow> fileId \<Rightarrow> state" where
  "checkOne cfg now s fid =
     (case map_of (receivingFiles s) fid of
        None \<Rightarrow> s
      | Some f \<Rightarrow>
          if expired cfg now f then
            (let s1 = s\<lparr>ui := ui s @ [StatusTimeout fid]\<rparr>;
                 s2 = showToast (FileTimedOut (name (meta f))) Error s1
             in deleteFile fid s2)
          else s)"

text \<open>
  The loop visits the own keys. The prototype is not among them: \<^verbatim>\<open>__proto__\<close> is not
  enumerable, so an entry installed as prototype is never visited. The fields of such an
  entry are visited as inherited keys, but their values have no \<^verbatim>\<open>lastUpdate\<close> and the
  test fails for them, so these rounds do nothing and are left out.
\<close>

definition checkTransferTimeout :: "config \<Rightarrow> nat \<Rightarrow> state \<Rightarrow> state" where
  "checkTransferTimeout cfg now s =
     foldl (checkOne cfg now) s (map fst (receivingFiles s))"

subsection \<open>Receiving\<close>

definition receiveText :: "jsstring \<Rightarrow> nat \<Rightarrow> state \<Rightarrow> state" where
  "receiveText c t s = showToast NewText Plain (s\<lparr>ui := ui s @ [TextShown c t]\<rparr>)"

text \<open>
  \<^verbatim>\<open>new Array(data.totalChunks)\<close> is an array of that length with every slot a hole; for
  a length of \<open>2^32\<close> or more it throws a \<^verbatim>\<open>RangeError\<close>, before anything is assigned.
\<close>

definition receiveFileMeta :: "nat \<Rightarrow> fileMeta \<Rightarrow> state \<Rightarrow> state" where
  "receiveFileMeta now data s =
     (if 4294967296 \<le> totalChunks data then s\<lparr>uncaught := uncaught s @ [RangeError]\<rparr>
      else
        createFileItemElement (fileId data) (name data) (size_m data) Receiving
          (setFile (fileId data)
             \<lparr>meta = data, chunks = replicate (totalChunks data) None,
              receivedSize = 0, lastUpdate = now\<rparr> s))"

text \<open>
  \<^verbatim>\<open>a[i] = v\<close> on a JavaScript array. An index below \<open>2^32 - 1\<close> is a slot: inside the
  array it is overwritten; at or beyond its length the array grows to length \<open>i + 1\<close>, the
  new slots before \<open>i\<close> being holes. An index of \<open>2^32 - 1\<close> or more is the name of a plain
  property: the slots and the length of the array stay as they are (nothing in the script
  reads such a property).
\<close>

definition array_set :: "'a option list \<Rightarrow> nat \<Rightarrow> 'a \<Rightarrow> 'a option list" where
  "array_set a i v =
     (if 4294967295 \<le> i then a
      else if i < length a then a[i := Some v]
      else a @ replicate (i - length a) None @ [Some v])"

text \<open>
  \<^verbatim>\<open>receiveFileChunk\<close>. A value that is not an entry but passes the test
  \<^verbatim>\<open>!fileData\<close> has no \<^verbatim>\<open>chunks\<close>: the assignment \<^verbatim>\<open>fileData.chunks[...] = ...\<close>
  throws a \<^verbatim>\<open>TypeError\<close>.
\<close>

definition receiveFileChunk :: "nat \<Rightarrow> fileId \<Rightarrow> nat \<Rightarrow> bytes \<Rightarrow> state \<Rightarrow> state" where
  "receiveFileChunk now fid chunkIndex data s =
     (case lookupFile s fid of
        Missing \<Rightarrow> s
      | Foreign \<Rightarrow> s\<lparr>uncaught := uncaught s @ [TypeError]\<rparr>
      | Entry fileData \<Rightarrow>
          (let fileData' = fileData\<lparr>chunks := array_set (chunks fileData) chunkIndex data,
                                    receivedSize := receivedSize fileData + length data,
                                    lastUpdate := now\<rparr>;
               s' = setFile fid fileData' s;
               progress = percent (receivedSize fileData') (size_m (meta fileData'))
           in updateFileProgress fid progress s'))"

text \<open>
  \<^verbatim>\<open>new Blob(parts, {type})\<close>: the parts are concatenated in index order. An
  \<^verbatim>\<open>ArrayBuffer\<close> contributes its bytes; any other value, a hole of the array included
  (it is read as \<^verbatim>\<open>undefined\<close>), contributes its string conversion, here the nine
  characters \<^verbatim>\<open>undefined\<close>. The type is normalised: a type with a character outside
  the range \<open>0x20 .. 0x7E\<close> becomes the empty string, any other has its upper-case letters
  turned into lower case.
\<close>

definition lowerChar :: "char \<Rightarrow> char" where
  "lowerChar ch =
     (case map_of (zip ''ABCDEFGHIJKLMNOPQRSTUVWXYZ'' ''abcdefghijklmnopqrstuvwxyz'') ch of
        Some l \<Rightarrow> l
      | None \<Rightarrow> ch)"

definition normalizeType :: "string \<Rightarrow> string" where
  "normalizeType t =
     (if list_all (\<lambda>ch. 32 \<le> (of_char ch :: nat) \<and> (of_char ch :: nat) \<le> 126) t
      then map lowerChar t else [])"

definition undefined_text :: bytes where
  "undefined_text = [0x75, 0x6E, 0x64, 0x65, 0x66, 0x69, 0x6E, 0x65, 0x64]"

definition blobPart :: "bytes option \<Rightarrow> bytes" where
  "blobPart p = (case p of None \<Rightarrow> undefined_text | Some b \<Rightarrow> b)"

definition newBlob :: "bytes option list \<Rightarrow> string \<Rightarrow> blob" where
  "newBlob parts ty =
     \<lparr>blob_bytes = concat (map blobPart parts), blob_type = normalizeType ty\<rparr>"

text \<open>
  \<^verbatim>\<open>receiveFileComplete\<close>. For a value that is not an entry but passes the test, the
  argument \<^verbatim>\<open>fileData.meta.fileType\<close> throws a \<^verbatim>\<open>TypeError\<close>.
\<close>

definition receiveFileComplete :: "fileId \<Rightarrow> state \<Rightarrow> state" where
  "receiveFileComplete fid s =
     (case lookupFile s fid of
        Missing \<Rightarrow> s
      | Foreign \<Rightarrow> s\<lparr>uncaught := uncaught s @ [TypeError]\<rparr>
      | Entry fileData \<Rightarrow>
          (let blob = newBlob (chunks fileData) (fileType (meta fileData));
               s1 = s\<lparr>completedFiles := (completedFiles s)(fid \<mapsto>
                        \<lparr>name_c = name (meta fileData), size_c = size_m (meta fileData),
                         url = blob, downloaded = False\<rparr>)\<rparr>;
               s2 = updateFileStatus fid (Some blob) (Some (name (meta fileData))) s1;
               s3 = showToast (FileReceived (name (meta fileData))) Success s2
           in deleteFile fid s3))"

text \<open>\<^verbatim>\<open>handleData\<close>: the liveness time stamp is refreshed first, whatever the message.\<close>

definition handleData :: "nat \<Rightarrow> message \<Rightarrow> state \<Rightarrow> state" where
  "handleData now data s =
     (let s0 = s\<lparr>lastHeartbeat := now\<rparr>
      in case data of
           Heartbeat t \<Rightarrow> s0
         | Text c t \<Rightarrow> receiveText c t s0
         | FileMeta m \<Rightarrow> receiveFileMeta now m s0
         | FileChunk fid i d \<Rightarrow> receiveFileChunk now fid i d s0
         | FileComplete fid \<Rightarrow> receiveFileComplete fid s0
         | Unknown t \<Rightarrow> s0)"

subsection \<open>Sending a file\<close>

text \<open>
  \<^verbatim>\<open>Math.ceil(file.size / CONFIG.CHUNK_SIZE)\<close>, the ceiling of the quotient. The chunk
  size of the script is 65536. With a chunk size of zero the quotient would be \<open>Infinity\<close>
  (a loop bound that is never reached) or, for an empty file, \<open>NaN\<close>; neither is a chunk
  count that a \<^verbatim>\<open>file-meta\<close> message of this model can carry, and the result is \<open>None\<close>.
\<close>

definition totalChunksOf :: "nat \<Rightarrow> nat \<Rightarrow> nat option" where
  "totalChunksOf sz cs = (if cs = 0 then None else Some ((sz + cs - 1) div cs))"

text \<open>\<^verbatim>\<open>file.slice(start, end)\<close>: the bytes from \<open>start\<close> up to \<open>end\<close>, clamped to the file.\<close>

definition slice :: "bytes \<Rightarrow> nat \<Rightarrow> nat \<Rightarrow> bytes" where
  "slice b start end_i = take (end_i - start) (drop start b)"

text \<open>
  \<^verbatim>\<open>connection.send(m)\<close> where the script does not test \<^verbatim>\<open>connection\<close> first: on
  \<^verbatim>\<open>null\<close> the call throws a \<^verbatim>\<open>TypeError\<close>. The state reached before the throw is kept
  beside the error.
\<close>

definition connection_send :: "message \<Rightarrow> state \<Rightarrow> (error \<times> state) + state" where
  "connection_send m s =
     (case connection s of
        None \<Rightarrow> Inl (TypeError, s)
      | Some c \<Rightarrow> Inr (s\<lparr>connection := Some (c\<lparr>sent := sent c @ [m]\<rparr>)\<rparr>))"

text \<open>
  The \<^verbatim>\<open>for\<close> loop of \<^verbatim>\<open>sendFile\<close>, from index \<open>i\<close> with \<open>sentChunks\<close> chunks sent
  so far. The \<^verbatim>\<open>await\<close>s of the loop are points where other callbacks of the page can
  run; the function gives the effects of the loop itself, in its own order.
\<close>

function sendLoop ::
  "config \<Rightarrow> fileId \<Rightarrow> File \<Rightarrow> nat \<Rightarrow> nat \<Rightarrow> nat \<Rightarrow> state \<Rightarrow> (error \<times> state) + state" where
  "sendLoop cfg fid f total_chunks i sentChunks s =
     (if i < total_chunks then
        (let start = i * CHUNK_SIZE cfg;
             end_i = min (start + CHUNK_SIZE cfg) (size_f f);
             chunk = slice (content f) start end_i
         in case connection_send (FileChunk fid i chunk) s of
              Inl e \<Rightarrow> Inl e
            | Inr s1 \<Rightarrow>
                (let sentChunks' = sentChunks + 1;
                     progress = percent sentChunks' total_chunks;
                     s2 = updateFileProgress fid progress s1
                 in sendLoop cfg fid f total_chunks (i + 1) sentChunks' s2))
      else Inr s)"
  by pat_completeness auto
termination
  by (relation "measure (\<lambda>(cfg, fid, f, total_chunks, i, sentChunks, s). total_chunks - i)") auto

text \<open>
  \<^verbatim>\<open>sendFile\<close>. The result is \<open>None\<close> when there is no chunk count (chunk size zero),
  \<open>Some (Inl (e, s'))\<close> when a statement throws \<open>e\<close> in state \<open>s'\<close>, and \<open>Some (Inr s')\<close>
  when the function runs to its end.
\<close>

definition sendFile :: "config \<Rightarrow> fileId \<Rightarrow> File \<Rightarrow> state \<Rightarrow> ((error \<times> state) + state) option" where
  "sendFile cfg fid f s =
     (case totalChunksOf (size_f f) (CHUNK_SIZE cfg) of
        None \<Rightarrow> None
      | Some total_chunks \<Rightarrow>
          Some
            (let s1 = createFileItemElement fid (name_f f) (size_f f) Sending s
             in case connection_send
                       (FileMeta \<lparr>fileId = fid, name = name_f f, size_m = size_f f,
                                  fileType = type_f f, totalChunks = total_chunks\<rparr>) s1 of
                  Inl e \<Rightarrow> Inl e
                | Inr s2 \<Rightarrow>
                    (case sendLoop cfg fid f total_chunks 0 0 s2 of
                       Inl e \<Rightarrow> Inl e
                     | Inr s3 \<Rightarrow>
                         (case connection_send (FileComplete fid) s3 of
                            Inl e \<Rightarrow> Inl e
                          | Inr s4 \<Rightarrow>
                              Inr (showToast (FileSent (name_f f)) Success
                                     (updateFileStatus fid None None s4))))))"

text \<open>
  \<^verbatim>\<open>sendFile\<close> is \<^verbatim>\<open>async\<close> and nobody awaits it: when it throws, its promise is
  rejected and the effects up to the throw remain.
\<close>

definition settled :: "(error \<times> state) + state \<Rightarrow> state" where
  "settled r = (case r of Inl (e, s) \<Rightarrow> s | Inr s \<Rightarrow> s)"

text \<open>
  The \<^verbatim>\<open>forEach\<close> of \<^verbatim>\<open>handleFiles\<close>, each file with the identifier that
  \<^verbatim>\<open>generateFileId\<close> gives it. The sends are laid out one file after the other; the
  script starts them together, so messages of different files may alternate on the
  channel, while the messages of one file keep the order given here.
\<close>

fun sendAll :: "config \<Rightarrow> (fileId \<times> File) list \<Rightarrow> state \<Rightarrow> state option" where
  "sendAll cfg [] s = Some s"
| "sendAll cfg ((fid, f) # fs) s =
     (case sendFile cfg fid f s of
        None \<Rightarrow> None
      | Some r \<Rightarrow> sendAll cfg fs (settled r))"

text \<open>\<^verbatim>\<open>handleFiles\<close>, the send-file command of the page.\<close>

definition handleFiles :: "config \<Rightarrow> (fileId \<times> File) list \<Rightarrow> state \<Rightarrow> state option" where
  "handleFiles cfg files s =
     (case connection s of
        None \<Rightarrow> Some (showToast ConnectFirst Error s)
      | Some c \<Rightarrow>
          if open_c c \<noteq> True then Some (showToast ConnectFirst Error s)
          else sendAll cfg files s)"

subsection \<open>Sending text\<close>

text \<open>The code units that \<^verbatim>\<open>String.prototype.trim\<close> strips: white space and line terminators.\<close>

definition isWhiteSpace :: "16 word \<Rightarrow> bool" where
  "isWhiteSpace c =
     (c = 0x09 \<or> c = 0x0A \<or> c = 0x0B \<or> c = 0x0C \<or> c = 0x0D \<or> c = 0x20 \<or> c = 0xA0
      \<or> c = 0x1680 \<or> (0x2000 \<le> c \<and> c \<le> 0x200A) \<or> c = 0x2028 \<or> c = 0x2029
      \<or> c = 0x202F \<or> c = 0x205F \<or> c = 0x3000 \<or> c = 0xFEFF)"

definition trim :: "jsstring \<Rightarrow> jsstring" where
  "trim t = rev (dropWhile isWhiteSpace (rev (dropWhile isWhiteSpace t)))"

text \<open>\<^verbatim>\<open>sendText\<close>, the send-text command; the content is the value of the text input.\<close>

definition sendText :: "nat \<Rightarrow> state \<Rightarrow> state" where
  "sendText now s =
     (let text = trim (textInput s)
      in if text = [] then showToast EnterText Error s
         else (case connection s of
                 None \<Rightarrow> showToast ConnectFirst Error s
               | Some c \<Rightarrow>
                   if open_c c \<noteq> True then showToast ConnectFirst Error s
                   else showToast TextSent Success
                          (s\<lparr>connection := Some (c\<lparr>sent := sent c @ [Text text now]\<rparr>),
                             textInput := []\<rparr>)))"

subsection \<open>Events of the page\<close>

text \<open>
  What the event loop can deliver to the core while a session lasts: a message on the
  channel, a tick of one of the three interval timers, the close event of the channel.
  A tick of a timer that \<^verbatim>\<open>clearInterval\<close> has stopped does not run its callback.
\<close>

datatype event =
    Data nat message
  | HeartbeatTick nat
  | HeartbeatCheckTick nat
  | TransferCheckTick nat
  | CloseEvent

definition step :: "config \<Rightarrow> state \<Rightarrow> event \<Rightarrow> state" where
  "step cfg s ev =
     (case ev of
        Data now m \<Rightarrow> handleData now m s
      | HeartbeatTick now \<Rightarrow> if heartbeatTimer s then heartbeatSend now s else s
      | HeartbeatCheckTick now \<Rightarrow> if heartbeatCheckTimer s then heartbeatCheck cfg now s else s
      | TransferCheckTick now \<Rightarrow>
          if transferCheckTimer s then checkTransferTimeout cfg now s else s
      | CloseEvent \<Rightarrow> resetConnection (showToast PeerDisconnected Error s))"

definition run :: "config \<Rightarrow> event list \<Rightarrow> state \<Rightarrow> state" where
  "run cfg evs s = foldl (step cfg) s evs"

subsection \<open>The state at load time and observations\<close>

text \<open>The globals as the script initialises them; the page shows nothing yet.\<close>

definition initial :: state where
  "initial =
     \<lparr>connection = None, receivingFiles = [], receivingProto = None,
      completedFiles = Map.empty, lastHeartbeat = 0,
      heartbeatTimer = False, heartbeatCheckTimer = False, transferCheckTimer = False,
      textInput = [], ui = [], uncaught = []\<rparr>"

text \<open>The messages on the channel when \<^verbatim>\<open>sendFile\<close> has run to its end.\<close>

definition outbox :: "((error \<times> state) + state) option \<Rightarrow> message list" where
  "outbox res =
     (case res of
        Some (Inr s) \<Rightarrow> (case connection s of Some c \<Rightarrow> sent c | None \<Rightarrow> [])
      | _ \<Rightarrow> [])"

text \<open>
  The marks that a teardown leaves in the page: one of the two error notices, the status
  badge set to disconnected, the page reset.
\<close>

definition teardownMark :: "ui_event \<Rightarrow> bool" where
  "teardownMark e =
     (e = Toast ConnectionLost Error \<or> e = Toast PeerDisconnected Error
      \<or> e = ConnectionStatusDisconnected \<or> e = UiReset)"

text \<open>An event that announces the transfer \<open>fid\<close>: a \<^verbatim>\<open>file-meta\<close> message carrying it.\<close>

definition announces :: "fileId \<Rightarrow> event \<Rightarrow> bool" where
  "announces fid ev = (case ev of Data t (FileMeta m) \<Rightarrow> fileId m = fid | _ \<Rightarrow> False)"

text \<open>
  A call that hands the received file \<open>fid\<close> to the page:
  \<^verbatim>\<open>updateFileStatus(fileId, 'completed', url, name)\<close> with a download URL.
\<close>

definition delivers :: "fileId \<Rightarrow> ui_event \<Rightarrow> bool" where
  "delivers fid e = (case e of StatusCompleted f (Some b) n \<Rightarrow> f = fid | _ \<Rightarrow> False)"

definition delivered :: "fileId \<Rightarrow> state \<Rightarrow> nat" where
  "delivered fid s = length (filter (delivers fid) (ui s))"

text \<open>The progress values passed to \<^verbatim>\<open>updateFileProgress\<close> for \<open>fid\<close>, in call order.\<close>

fun progressOf :: "fileId \<Rightarrow> ui_event list \<Rightarrow> jsnum list" where
  "progressOf fid [] = []"
| "progressOf fid (Progress f p # es) = (if f = fid then p # progressOf fid es else progressOf fid es)"
| "progressOf fid (e # es) = progressOf fid es"

text \<open>
  The chunk messages of one transfer as they arrive: each with its time of arrival, its
  index and its data; and the number of bytes they carry together.
\<close>

definition chunkEvents :: "fileId \<Rightarrow> (nat \<times> nat \<times> bytes) list \<Rightarrow> event list" where
  "chunkEvents fid cl = map (\<lambda>(t, i, d). Data t (FileChunk fid i d)) cl"

definition byteCount :: "(nat \<times> nat \<times> bytes) list \<Rightarrow> nat" where
  "byteCount cl = sum_list (map (\<lambda>(t, i, d). length d) cl)"

section \<open>Properties\<close>

subsection \<open>The send loop\<close>

lemma slice_chunk:
  "slice b (i * cs) (min (i * cs + cs) (length b)) = take cs (drop (i * cs) b)"
  by (simp add: slice_def min_def)

lemma concat_chunks: "concat (map (\<lambda>i. take cs (drop (i * cs) b)) [0..<n]) = take (n * cs) b"
proof (induction n)
  case 0
  show ?case by simp
next
  case (Suc n)
  have "take (n * cs) b @ take cs (drop (n * cs) b) = take (n * cs + cs) b"
    by (simp add: take_add)
  with Suc show ?case by (simp add: add.commute)
qed

lemma ceil_bounds:
  assumes "0 < (cs::nat)"
  shows "sz \<le> ((sz + cs - 1) div cs) * cs" and "((sz + cs - 1) div cs) * cs < sz + cs"
proof -
  let ?q = "(sz + cs - 1) div cs"
  have eq: "?q * cs + (sz + cs - 1) mod cs = sz + cs - 1"
    by (simp add: mult.commute)
  have lt: "(sz + cs - 1) mod cs < cs" using assms by simp
  show "sz \<le> ?q * cs" using eq lt assms by linarith
  show "?q * cs < sz + cs" using eq assms by linarith
qed

lemma sendLoop_run:
  "connection s = Some c \<Longrightarrow>
   sendLoop cfg fid f n i k s =
     Inr (s\<lparr>connection :=
               Some (c\<lparr>sent := sent c @
                  map (\<lambda>j. FileChunk fid j (take (CHUNK_SIZE cfg) (drop (j * CHUNK_SIZE cfg) (content f))))
                    [i..<n]\<rparr>),
            ui := ui s @ map (\<lambda>j. Progress fid (percent (k + 1 + (j - i)) n)) [i..<n]\<rparr>)"
proof (induction cfg fid f n i k s arbitrary: c rule: sendLoop.induct)
  case (1 cfg fid f n i k s)
  show ?case
  proof (cases "i < n")
    case False
    then show ?thesis using "1.prems" by simp
  next
    case True
    let ?chunk = "take (CHUNK_SIZE cfg) (drop (i * CHUNK_SIZE cfg) (content f))"
    let ?s1 = "s\<lparr>connection := Some (c\<lparr>sent := sent c @ [FileChunk fid i ?chunk]\<rparr>)\<rparr>"
    let ?s2 = "updateFileProgress fid (percent (k + 1) n) ?s1"
    have send: "connection_send (FileChunk fid i (slice (content f) (i * CHUNK_SIZE cfg)
                   (min (i * CHUNK_SIZE cfg + CHUNK_SIZE cfg) (size_f f)))) s = Inr ?s1"
      using "1.prems" by (simp add: connection_send_def slice_chunk size_f_def)
    have conn2: "connection ?s2 = Some (c\<lparr>sent := sent c @ [FileChunk fid i ?chunk]\<rparr>)"
      by (simp add: updateFileProgress_def)
    have IH: "sendLoop cfg fid f n (i + 1) (k + 1) ?s2 =
       Inr (?s2\<lparr>connection :=
               Some ((c\<lparr>sent := sent c @ [FileChunk fid i ?chunk]\<rparr>)\<lparr>sent := sent (c\<lparr>sent := sent c @ [FileChunk fid i ?chunk]\<rparr>) @
                  map (\<lambda>j. FileChunk fid j (take (CHUNK_SIZE cfg) (drop (j * CHUNK_SIZE cfg) (content f))))
                    [i + 1..<n]\<rparr>),
            ui := ui ?s2 @ map (\<lambda>j. Progress fid (percent (k + 1 + 1 + (j - (i + 1))) n)) [i + 1..<n]\<rparr>)"
      using "1.IH"[OF True refl refl refl send refl refl refl conn2] .
    have unf: "sendLoop cfg fid f n i k s = sendLoop cfg fid f n (i + 1) (k + 1) ?s2"
      using True send by (subst sendLoop.simps) (simp add: Let_def)
    have idx: "map (\<lambda>j. Progress fid (percent (k + 1 + 1 + (j - (i + 1))) n)) [i + 1..<n]
             = map (\<lambda>j. Progress fid (percent (k + 1 + (j - i)) n)) [i + 1..<n]"
    proof (rule map_cong)
      fix j assume "j \<in> set [i + 1..<n]"
      then have "k + 1 + 1 + (j - (i + 1)) = k + 1 + (j - i)" by auto
      then show "Progress fid (percent (k + 1 + 1 + (j - (i + 1))) n) = Progress fid (percent (k + 1 + (j - i)) n)"
        by (simp only:)
    qed simp
    show ?thesis
      unfolding unf IH idx using True
      by (simp add: upt_conv_Cons updateFileProgress_def)
  qed
qed


lemma sendFile_run:
  assumes "0 < CHUNK_SIZE cfg" and "connection s = Some c"
  shows "sendFile cfg fid f s =
     Some (Inr (s\<lparr>connection :=
               Some (c\<lparr>sent := sent c @
                  FileMeta \<lparr>fileId = fid, name = name_f f, size_m = size_f f, fileType = type_f f,
                            totalChunks = (size_f f + CHUNK_SIZE cfg - 1) div CHUNK_SIZE cfg\<rparr> #
                  map (\<lambda>j. FileChunk fid j (take (CHUNK_SIZE cfg) (drop (j * CHUNK_SIZE cfg) (content f))))
                    [0..<(size_f f + CHUNK_SIZE cfg - 1) div CHUNK_SIZE cfg] @ [FileComplete fid]\<rparr>),
            ui := ui s @ FileItem fid (name_f f) (size_f f) Sending #
                  map (\<lambda>j. Progress fid (percent (j + 1) ((size_f f + CHUNK_SIZE cfg - 1) div CHUNK_SIZE cfg)))
                    [0..<(size_f f + CHUNK_SIZE cfg - 1) div CHUNK_SIZE cfg] @
                  [StatusCompleted fid None None, Toast (FileSent (name_f f)) Success]\<rparr>))"
proof -
  let ?n = "(size_f f + CHUNK_SIZE cfg - 1) div CHUNK_SIZE cfg"
  let ?m = "FileMeta \<lparr>fileId = fid, name = name_f f, size_m = size_f f, fileType = type_f f,
                            totalChunks = ?n\<rparr>"
  let ?s1 = "createFileItemElement fid (name_f f) (size_f f) Sending s"
  let ?s2 = "?s1\<lparr>connection := Some (c\<lparr>sent := sent c @ [?m]\<rparr>)\<rparr>"
  have tc: "totalChunksOf (size_f f) (CHUNK_SIZE cfg) = Some ?n"
    using assms(1) by (simp add: totalChunksOf_def)
  have m: "connection_send ?m ?s1 = Inr ?s2"
    using assms(2) by (simp add: connection_send_def createFileItemElement_def)
  have c2: "connection ?s2 = Some (c\<lparr>sent := sent c @ [?m]\<rparr>)" by simp
  let ?s3 = "?s2\<lparr>connection :=
               Some ((c\<lparr>sent := sent c @ [?m]\<rparr>)\<lparr>sent := sent (c\<lparr>sent := sent c @ [?m]\<rparr>) @
                  map (\<lambda>j. FileChunk fid j (take (CHUNK_SIZE cfg) (drop (j * CHUNK_SIZE cfg) (content f))))
                    [0..<?n]\<rparr>),
            ui := ui ?s2 @ map (\<lambda>j. Progress fid (percent (0 + 1 + (j - 0)) ?n)) [0..<?n]\<rparr>"
  have loop: "sendLoop cfg fid f ?n 0 0 ?s2 = Inr ?s3"
    by (rule sendLoop_run[OF c2])
  obtain s4 where fin: "connection_send (FileComplete fid) ?s3 = Inr s4"
    and s4: "s4 = ?s3\<lparr>connection := Some (c\<lparr>sent := sent c @ ?m #
                  map (\<lambda>j. FileChunk fid j (take (CHUNK_SIZE cfg) (drop (j * CHUNK_SIZE cfg) (content f))))
                    [0..<?n] @ [FileComplete fid]\<rparr>)\<rparr>"
    by (simp add: connection_send_def)
  have "sendFile cfg fid f s =
      Some (Inr (showToast (FileSent (name_f f)) Success (updateFileStatus fid None None s4)))"
    by (simp only: sendFile_def tc option.case Let_def m sum.case loop fin)
  then show ?thesis
    by (simp add: s4 showToast_def updateFileStatus_def createFileItemElement_def)
qed


lemma chunk_length:
  assumes "0 < (cs::nat)" and "i < (length b + cs - 1) div cs"
  shows "length (take cs (drop (i * cs) b)) =
           (if i + 1 < (length b + cs - 1) div cs then cs else length b - i * cs)"
    and "0 < length (take cs (drop (i * cs) b))"
    and "length (take cs (drop (i * cs) b)) \<le> cs"
proof -
  let ?n = "(length b + cs - 1) div cs"
  have up: "?n * cs < length b + cs" using ceil_bounds(2)[OF assms(1)] .
  have lo: "length b \<le> ?n * cs" using ceil_bounds(1)[OF assms(1)] .
  have "(i + 1) * cs \<le> ?n * cs" using assms(2) by (intro mult_le_mono1) simp
  then have i1: "i * cs + cs \<le> ?n * cs" by (simp add: algebra_simps)
  with up have pos: "i * cs < length b" by linarith
  show "0 < length (take cs (drop (i * cs) b))" using pos assms(1) by simp
  show "length (take cs (drop (i * cs) b)) \<le> cs" by simp
  show "length (take cs (drop (i * cs) b)) =
           (if i + 1 < ?n then cs else length b - i * cs)"
  proof (cases "i + 1 < ?n")
    case True
    then have "(i + 2) * cs \<le> ?n * cs" by (intro mult_le_mono1) simp
    then have "i * cs + cs + cs \<le> ?n * cs" by (simp add: algebra_simps)
    with up have "i * cs + cs \<le> length b" by linarith
    with True show ?thesis by simp
  next
    case False
    with assms(2) have "?n = i + 1" by simp
    with lo have "length b \<le> i * cs + cs" by (simp add: algebra_simps)
    with False show ?thesis by simp
  qed
qed

text \<open>
  C7. With a positive chunk size and a connection, \<^verbatim>\<open>sendFile\<close> runs to its end. The
  chunk count \<open>n\<close> is the ceiling of size / chunk size (the least \<open>n\<close> with
  \<open>size \<le> n * chunkSize\<close>). The messages handed to the channel are, in this order, one
  \<^verbatim>\<open>file-meta\<close> carrying \<open>n\<close>, the \<^verbatim>\<open>file-chunk\<close> messages with indices
  \<open>0, ..., n - 1\<close> in increasing order, chunk \<open>i\<close> being the bytes from \<open>i * chunkSize\<close>
  on, and one \<^verbatim>\<open>file-complete\<close>. Every chunk but the last has exactly \<open>chunkSize\<close>
  bytes, the last has the rest (at least one byte, at most \<open>chunkSize\<close>). For 150000
  bytes and a chunk size of 65536 there are three chunks of 65536, 65536 and 18928 bytes.
\<close>

theorem sendFile_meta_chunks_complete:
  assumes "0 < CHUNK_SIZE cfg" and "connection s = Some c"
  shows "\<exists>n s'. totalChunksOf (size_f f) (CHUNK_SIZE cfg) = Some n
     \<and> size_f f \<le> n * CHUNK_SIZE cfg \<and> n * CHUNK_SIZE cfg < size_f f + CHUNK_SIZE cfg
     \<and> sendFile cfg fid f s = Some (Inr s')
     \<and> connection s' = Some (c\<lparr>sent := sent c @
          FileMeta \<lparr>fileId = fid, name = name_f f, size_m = size_f f, fileType = type_f f,
                    totalChunks = n\<rparr> #
          map (\<lambda>i. FileChunk fid i (take (CHUNK_SIZE cfg) (drop (i * CHUNK_SIZE cfg) (content f))))
            [0..<n] @
          [FileComplete fid]\<rparr>)
     \<and> (\<forall>i<n. length (take (CHUNK_SIZE cfg) (drop (i * CHUNK_SIZE cfg) (content f))) =
                  (if i + 1 < n then CHUNK_SIZE cfg else size_f f - i * CHUNK_SIZE cfg)
              \<and> 0 < length (take (CHUNK_SIZE cfg) (drop (i * CHUNK_SIZE cfg) (content f)))
              \<and> length (take (CHUNK_SIZE cfg) (drop (i * CHUNK_SIZE cfg) (content f)))
                    \<le> CHUNK_SIZE cfg)
     \<and> (CHUNK_SIZE cfg = 65536 \<and> size_f f = 150000 \<longrightarrow>
          n = 3 \<and>
          map (\<lambda>i. length (take (CHUNK_SIZE cfg) (drop (i * CHUNK_SIZE cfg) (content f)))) [0..<n]
            = [65536, 65536, 18928])"
proof -
  let ?cs = "CHUNK_SIZE cfg"
  let ?n = "(size_f f + ?cs - 1) div ?cs"
  note run = sendFile_run[OF assms, of fid f]
  have tc: "totalChunksOf (size_f f) ?cs = Some ?n"
    using assms(1) by (simp add: totalChunksOf_def)
  have b1: "size_f f \<le> ?n * ?cs" and b2: "?n * ?cs < size_f f + ?cs"
    using ceil_bounds[OF assms(1)] by blast+
  have lens: "\<forall>i<?n. length (take ?cs (drop (i * ?cs) (content f))) =
                  (if i + 1 < ?n then ?cs else size_f f - i * ?cs)
              \<and> 0 < length (take ?cs (drop (i * ?cs) (content f)))
              \<and> length (take ?cs (drop (i * ?cs) (content f))) \<le> ?cs"
    using chunk_length[OF assms(1), of _ "content f"] unfolding size_f_def by blast
  have ex: "?cs = 65536 \<and> size_f f = 150000 \<longrightarrow>
          ?n = 3 \<and> map (\<lambda>i. length (take ?cs (drop (i * ?cs) (content f)))) [0..<?n]
            = [65536, 65536, 18928]"
  proof
    assume a: "?cs = 65536 \<and> size_f f = 150000"
    then have n3: "?n = 3" by simp
    have u: "[0..<3] = [0, 1, 2::nat]" by (simp add: upt_rec)
    from a have len: "length (content f) = 150000" by (simp add: size_f_def)
    show "?n = 3 \<and> map (\<lambda>i. length (take ?cs (drop (i * ?cs) (content f)))) [0..<?n]
            = [65536, 65536, 18928]"
      unfolding n3 u using a len by simp
  qed
  show ?thesis
    apply (rule exI[of _ ?n])
    apply (rule exI)
    apply (intro conjI)
          apply (rule tc)
         apply (rule b1)
        apply (rule b2)
       apply (rule run)
      apply simp
     apply (rule lens)
    apply (rule ex)
    done
qed

theorem sendFile_meta_chunks_complete_witness:
  "0 < CHUNK_SIZE CONFIG \<and>
   (\<exists>s'. sendFile CONFIG ''file_1''
           \<lparr>name_f = ''a.bin'', type_f = ''bin'', content = replicate 150000 0\<rparr>
           \<lparr>connection = Some \<lparr>open_c = True, sent = []\<rparr>, receivingFiles = [], receivingProto = None,
            completedFiles = Map.empty, lastHeartbeat = 0, heartbeatTimer = True,
            heartbeatCheckTimer = True, transferCheckTimer = True, textInput = [], ui = [], uncaught = []\<rparr>
         = Some (Inr s') \<and>
         connection s' = Some \<lparr>open_c = True, sent =
           [FileMeta \<lparr>fileId = ''file_1'', name = ''a.bin'', size_m = 150000, fileType = ''bin'',
                      totalChunks = 3\<rparr>,
            FileChunk ''file_1'' 0 (replicate 65536 0),
            FileChunk ''file_1'' 1 (replicate 65536 0),
            FileChunk ''file_1'' 2 (replicate 18928 0),
            FileComplete ''file_1'']\<rparr>)"
proof -
  let ?f = "\<lparr>name_f = ''a.bin'', type_f = ''bin'', content = replicate 150000 (0::byte)\<rparr>"
  let ?c = "\<lparr>open_c = True, sent = []\<rparr>"
  let ?s = "\<lparr>connection = Some ?c, receivingFiles = [], receivingProto = None,
            completedFiles = Map.empty, lastHeartbeat = 0, heartbeatTimer = True,
            heartbeatCheckTimer = True, transferCheckTimer = True, textInput = [], ui = [], uncaught = []\<rparr>"
  have h1: "0 < CHUNK_SIZE CONFIG" by (simp add: CONFIG_def)
  have h2: "connection ?s = Some ?c" by simp
  have cs: "CHUNK_SIZE CONFIG = 65536" by (simp add: CONFIG_def)
  have sz: "size_f ?f = 150000" by (simp add: size_f_def)
  have u: "[0..<3] = [0, 1, 2::nat]" by (simp add: upt_rec)
  from sendFile_meta_chunks_complete[OF h1 h2, of ?f "''file_1''"]
  obtain n s' where n: "CHUNK_SIZE CONFIG = 65536 \<and> size_f ?f = 150000 \<longrightarrow> n = 3 \<and>
          map (\<lambda>i. length (take (CHUNK_SIZE CONFIG) (drop (i * CHUNK_SIZE CONFIG) (content ?f)))) [0..<n]
            = [65536, 65536, 18928]"
    and r: "sendFile CONFIG ''file_1'' ?f ?s = Some (Inr s')"
    and c: "connection s' = Some (?c\<lparr>sent := sent ?c @
          FileMeta \<lparr>fileId = ''file_1'', name = name_f ?f, size_m = size_f ?f, fileType = type_f ?f,
                    totalChunks = n\<rparr> #
          map (\<lambda>i. FileChunk ''file_1'' i (take (CHUNK_SIZE CONFIG) (drop (i * CHUNK_SIZE CONFIG) (content ?f))))
            [0..<n] @
          [FileComplete ''file_1'']\<rparr>)"
    by (elim exE conjE)
  from n cs sz have n3: "n = 3" by (elim impE conjE) (intro conjI)
  have "connection s' = Some \<lparr>open_c = True, sent =
           [FileMeta \<lparr>fileId = ''file_1'', name = ''a.bin'', size_m = 150000, fileType = ''bin'',
                      totalChunks = 3\<rparr>,
            FileChunk ''file_1'' 0 (replicate 65536 0),
            FileChunk ''file_1'' 1 (replicate 65536 0),
            FileChunk ''file_1'' 2 (replicate 18928 0),
            FileComplete ''file_1'']\<rparr>"
    using c unfolding n3 u cs sz by simp
  with r have "\<exists>s'. sendFile CONFIG ''file_1'' ?f ?s = Some (Inr s') \<and> connection s' = Some \<lparr>open_c = True, sent =
           [FileMeta \<lparr>fileId = ''file_1'', name = ''a.bin'', size_m = 150000, fileType = ''bin'',
                      totalChunks = 3\<rparr>,
            FileChunk ''file_1'' 0 (replicate 65536 0),
            FileChunk ''file_1'' 1 (replicate 65536 0),
            FileChunk ''file_1'' 2 (replicate 18928 0),
            FileComplete ''file_1'']\<rparr>"
    by (intro exI conjI)
  with h1 show ?thesis by (intro conjI)
qed

subsection \<open>Receiving the messages of a file\<close>

lemma run_Nil: "run cfg [] s = s"
  by (simp add: run_def)

lemma run_Cons: "run cfg (e # es) s = run cfg es (step cfg s e)"
  by (simp add: run_def)

lemma run_append: "run cfg (es @ es') s = run cfg es' (run cfg es s)"
  by (simp add: run_def)

lemma lookupFile_cong:
  "receivingFiles s = receivingFiles s' \<Longrightarrow> receivingProto s = receivingProto s' \<Longrightarrow>
   lookupFile s fid = lookupFile s' fid"
  by (simp only: lookupFile_def)

lemma lookupFile_own: "map_of (receivingFiles s) fid = Some f \<Longrightarrow> lookupFile s fid = Entry f"
  by (simp add: lookupFile_def)

lemma lookupFile_ordinary:
  "ordinary fid \<Longrightarrow>
   lookupFile s fid = (case map_of (receivingFiles s) fid of Some f \<Rightarrow> Entry f | None \<Rightarrow> Missing)"
  by (simp add: lookupFile_def ordinary_def split: option.splits)

lemma generated_id_ordinary: "ordinary (''file_'' @ rest)"
  by (simp add: ordinary_def prototypeMembers_def)

lemma lookupFile_setFile: "lookupFile (setFile fid f s) fid = Entry f"
  by (simp add: lookupFile_def setFile_def update_conv')

lemma setFile_own:
  "map_of (receivingFiles s) fid = Some f0 \<Longrightarrow>
   setFile fid f s = s\<lparr>receivingFiles := AList.update fid f (receivingFiles s)\<rparr>"
  by (simp add: setFile_def)

lemma setFile_frame:
  "connection (setFile fid f s) = connection s"
  "completedFiles (setFile fid f s) = completedFiles s"
  "lastHeartbeat (setFile fid f s) = lastHeartbeat s"
  "heartbeatTimer (setFile fid f s) = heartbeatTimer s"
  "heartbeatCheckTimer (setFile fid f s) = heartbeatCheckTimer s"
  "transferCheckTimer (setFile fid f s) = transferCheckTimer s"
  "textInput (setFile fid f s) = textInput s"
  "ui (setFile fid f s) = ui s"
  "uncaught (setFile fid f s) = uncaught s"
  by (simp_all add: setFile_def)

lemma array_set_next:
  "length xs = i \<Longrightarrow> i < 4294967295 \<Longrightarrow>
   array_set (xs @ replicate (Suc k) None) i v = xs @ [Some v] @ replicate k None"
  by (simp add: array_set_def list_update_append)

lemma handleData_chunk:
  "lookupFile r fid = Entry fd \<Longrightarrow>
   handleData t (FileChunk fid i d) r =
     (setFile fid
        (fd\<lparr>chunks := array_set (chunks fd) i d, receivedSize := receivedSize fd + length d,
            lastUpdate := t\<rparr>) (r\<lparr>lastHeartbeat := t\<rparr>))
     \<lparr>ui := ui r @ [Progress fid (percent (receivedSize fd + length d) (size_m (meta fd)))]\<rparr>"
proof -
  assume a: "lookupFile r fid = Entry fd"
  have "lookupFile (r\<lparr>lastHeartbeat := t\<rparr>) fid = lookupFile r fid"
    by (rule lookupFile_cong) simp_all
  with a have l: "lookupFile (r\<lparr>lastHeartbeat := t\<rparr>) fid = Entry fd" by simp
  show ?thesis
    by (simp add: handleData_def receiveFileChunk_def l updateFileProgress_def Let_def setFile_frame)
qed

lemma recv_chunks:
  assumes "lookupFile r fid = Entry fd"
    and "chunks fd = map (\<lambda>j. Some (g j)) [0..<i] @ replicate (n - i) None"
    and "i \<le> n" and "length ts = n - i" and "n < 4294967296"
  shows "\<exists>fd'. lookupFile (run cfg (map2 Data ts (map (\<lambda>j. FileChunk fid j (g j)) [i..<n])) r) fid
               = Entry fd'
           \<and> chunks fd' = map (\<lambda>j. Some (g j)) [0..<n] \<and> meta fd' = meta fd
           \<and> completedFiles (run cfg (map2 Data ts (map (\<lambda>j. FileChunk fid j (g j)) [i..<n])) r)
               = completedFiles r"
  using assms(1-4)
proof (induction ts arbitrary: i r fd)
  case Nil
  then have "i = n" by simp
  with Nil show ?case by (simp add: run_Nil)
next
  case (Cons t ts)
  from Cons.prems have lt: "i < n" by simp
  with assms(5) have ib: "i < 4294967295" by simp
  from lt obtain k where k: "n - i = Suc k" "n - Suc i = k" by (cases "n - i") auto
  let ?fd1 = "fd\<lparr>chunks := array_set (chunks fd) i (g i),
                  receivedSize := receivedSize fd + length (g i), lastUpdate := t\<rparr>"
  let ?r1 = "handleData t (FileChunk fid i (g i)) r"
  have r1: "?r1 = (setFile fid ?fd1 (r\<lparr>lastHeartbeat := t\<rparr>))
        \<lparr>ui := ui r @ [Progress fid (percent (receivedSize fd + length (g i)) (size_m (meta fd)))]\<rparr>"
    using Cons.prems(1) by (rule handleData_chunk)
  have "lookupFile ?r1 fid = lookupFile (setFile fid ?fd1 (r\<lparr>lastHeartbeat := t\<rparr>)) fid"
    unfolding r1 by (rule lookupFile_cong) simp_all
  then have look: "lookupFile ?r1 fid = Entry ?fd1"
    by (simp add: lookupFile_setFile)
  have "array_set (map (\<lambda>j. Some (g j)) [0..<i] @ replicate (Suc k) None) i (g i)
          = map (\<lambda>j. Some (g j)) [0..<i] @ [Some (g i)] @ replicate k None"
    by (rule array_set_next) (simp_all add: ib)
  then have ch: "chunks ?fd1 = map (\<lambda>j. Some (g j)) [0..<Suc i] @ replicate (n - Suc i) None"
    using Cons.prems(2) k by simp
  have len: "length ts = n - Suc i" using Cons.prems(4) by simp
  from Cons.IH[OF look ch _ len] lt
  obtain fd' where fd': "lookupFile (run cfg (map2 Data ts (map (\<lambda>j. FileChunk fid j (g j)) [Suc i..<n])) ?r1) fid = Entry fd'"
     "chunks fd' = map (\<lambda>j. Some (g j)) [0..<n]" "meta fd' = meta ?fd1"
     "completedFiles (run cfg (map2 Data ts (map (\<lambda>j. FileChunk fid j (g j)) [Suc i..<n])) ?r1) = completedFiles ?r1"
    by auto
  have unf: "run cfg (map2 Data (t # ts) (map (\<lambda>j. FileChunk fid j (g j)) [i..<n])) r
           = run cfg (map2 Data ts (map (\<lambda>j. FileChunk fid j (g j)) [Suc i..<n])) ?r1"
    using lt by (simp add: upt_conv_Cons run_Cons step_def)
  have cf: "completedFiles ?r1 = completedFiles r" unfolding r1 by (simp add: setFile_frame)
  show ?case unfolding unf using fd' cf by simp
qed

lemma handleData_complete:
  "lookupFile r fid = Entry fd \<Longrightarrow>
   handleData t (FileComplete fid) r =
     (r\<lparr>lastHeartbeat := t,
        completedFiles := (completedFiles r)(fid \<mapsto>
           \<lparr>name_c = name (meta fd), size_c = size_m (meta fd),
            url = newBlob (chunks fd) (fileType (meta fd)), downloaded = False\<rparr>),
        ui := ui r @ [StatusCompleted fid (Some (newBlob (chunks fd) (fileType (meta fd))))
                        (Some (name (meta fd))),
                      Toast (FileReceived (name (meta fd))) Success],
        receivingFiles := AList.delete fid (receivingFiles r)\<rparr>)"
proof -
  assume a: "lookupFile r fid = Entry fd"
  have "lookupFile (r\<lparr>lastHeartbeat := t\<rparr>) fid = lookupFile r fid"
    by (rule lookupFile_cong) simp_all
  with a have l: "lookupFile (r\<lparr>lastHeartbeat := t\<rparr>) fid = Entry fd" by simp
  show ?thesis
    by (simp add: handleData_def receiveFileComplete_def l updateFileStatus_def showToast_def
        deleteFile_def Let_def)
qed

lemma map_of_delete_same: "map_of (AList.delete k al) k = None"
  by (simp add: delete_conv')

lemma recv_file:
  assumes "length ts = Suc (Suc n)" and "fileId m = fid" and "totalChunks m = n"
    and "n < 4294967296"
  shows "completedFiles (run cfg (map2 Data ts
            (FileMeta m # map (\<lambda>j. FileChunk fid j (g j)) [0..<n] @ [FileComplete fid])) r) fid
       = Some \<lparr>name_c = name m, size_c = size_m m,
               url = \<lparr>blob_bytes = concat (map g [0..<n]), blob_type = normalizeType (fileType m)\<rparr>,
               downloaded = False\<rparr>
     \<and> map_of (receivingFiles (run cfg (map2 Data ts
            (FileMeta m # map (\<lambda>j. FileChunk fid j (g j)) [0..<n] @ [FileComplete fid])) r)) fid = None"
proof -
  from assms(1) obtain t0 ts' where ts: "ts = t0 # ts'" and l': "length ts' = Suc n"
    by (cases ts) auto
  from l' have "ts' \<noteq> []" by auto
  then have ts': "ts' = butlast ts' @ [last ts']" by simp
  define tm te where "tm = butlast ts'" and "te = last ts'"
  have ts'': "ts' = tm @ [te]" and lm: "length tm = n"
    using ts' l' by (simp_all add: tm_def te_def)
  let ?cm = "map (\<lambda>j. FileChunk fid j (g j)) [0..<n]"
  let ?r1 = "handleData t0 (FileMeta m) r"
  let ?fd0 = "\<lparr>meta = m, chunks = replicate n None, receivedSize = 0, lastUpdate = t0\<rparr>"
  have r1: "?r1 = createFileItemElement fid (name m) (size_m m) Receiving
                    (setFile fid ?fd0 (r\<lparr>lastHeartbeat := t0\<rparr>))"
    using assms(2,3,4) by (simp add: handleData_def receiveFileMeta_def)
  have "lookupFile ?r1 fid = lookupFile (setFile fid ?fd0 (r\<lparr>lastHeartbeat := t0\<rparr>)) fid"
    unfolding r1 by (rule lookupFile_cong) (simp_all add: createFileItemElement_def)
  then have look: "lookupFile ?r1 fid = Entry ?fd0" by (simp add: lookupFile_setFile)
  have ch0: "chunks ?fd0 = map (\<lambda>j. Some (g j)) [0..<0] @ replicate (n - 0) None" by simp
  let ?r2 = "run cfg (map2 Data tm ?cm) ?r1"
  from recv_chunks[OF look ch0 _ _ assms(4), of tm cfg] lm
  obtain fd' where fd': "lookupFile ?r2 fid = Entry fd'"
     "chunks fd' = map (\<lambda>j. Some (g j)) [0..<n]" "meta fd' = m"
    by auto
  have zip: "map2 Data ts (FileMeta m # ?cm @ [FileComplete fid])
           = Data t0 (FileMeta m) # map2 Data tm ?cm @ [Data te (FileComplete fid)]"
    unfolding ts ts'' using lm by simp
  have run: "run cfg (map2 Data ts (FileMeta m # ?cm @ [FileComplete fid])) r
           = handleData te (FileComplete fid) ?r2"
    unfolding zip by (simp add: run_Cons run_append run_Nil step_def)
  have blob: "newBlob (map (\<lambda>j. Some (g j)) [0..<n]) (fileType m)
            = \<lparr>blob_bytes = concat (map g [0..<n]), blob_type = normalizeType (fileType m)\<rparr>"
    by (simp add: newBlob_def blobPart_def comp_def)
  show ?thesis
    unfolding run handleData_complete[OF fd'(1)]
    by (simp add: fd'(2,3) blob map_of_delete_same)
qed

text \<open>
  C1, amended. With a chunk size of at least one, a connection and a chunk count below \<open>2^32\<close>,
  \<^verbatim>\<open>sendFile\<close> runs to its end for every file, the empty one included (then it emits
  the meta message with a chunk count of zero and the completion message, and no chunk).
  When the messages it emitted arrive in order at a receiver in any state, at any times,
  \<^verbatim>\<open>completedFiles\<close> holds for the transfer a blob whose bytes are exactly the content
  of the file, with its name, its size and its type as \<^verbatim>\<open>new Blob\<close> normalises it, and
  \<^verbatim>\<open>receivingFiles\<close> has no property of its own for the transfer.
\<close>

theorem split_assemble_roundtrip:
  assumes "0 < CHUNK_SIZE cfg" and "connection s = Some c"
    and "totalChunksOf (size_f f) (CHUNK_SIZE cfg) = Some n" and "n < 4294967296"
  shows "\<exists>s' c' msgs. sendFile cfg fid f s = Some (Inr s') \<and> connection s' = Some c'
           \<and> sent c' = sent c @ msgs
           \<and> (size_f f = 0 \<longrightarrow>
                 msgs = [FileMeta \<lparr>fileId = fid, name = name_f f, size_m = 0, fileType = type_f f,
                                   totalChunks = 0\<rparr>, FileComplete fid])
           \<and> (\<forall>ts r cfg'. length ts = length msgs \<longrightarrow>
                 completedFiles (run cfg' (map2 Data ts msgs) r) fid
                   = Some \<lparr>name_c = name_f f, size_c = size_f f,
                           url = \<lparr>blob_bytes = content f, blob_type = normalizeType (type_f f)\<rparr>,
                           downloaded = False\<rparr>
                 \<and> map_of (receivingFiles (run cfg' (map2 Data ts msgs) r)) fid = None)"
proof -
  let ?cs = "CHUNK_SIZE cfg"
  let ?n = "(size_f f + ?cs - 1) div ?cs"
  let ?g = "\<lambda>j. take ?cs (drop (j * ?cs) (content f))"
  let ?m = "\<lparr>fileId = fid, name = name_f f, size_m = size_f f, fileType = type_f f,
             totalChunks = ?n\<rparr>"
  let ?msgs = "FileMeta ?m # map (\<lambda>j. FileChunk fid j (?g j)) [0..<?n] @ [FileComplete fid]"
  let ?c' = "c\<lparr>sent := sent c @ ?msgs\<rparr>"
  note run = sendFile_run[OF assms(1,2), of fid f]
  from assms(1,3) have n: "?n = n" by (simp add: totalChunksOf_def)
  with assms(4) have bound: "?n < 4294967296" by simp
  have all: "concat (map ?g [0..<?n]) = content f"
    using ceil_bounds(1)[OF assms(1), of "size_f f"]
    by (simp add: concat_chunks size_f_def)
  have empty: "size_f f = 0 \<longrightarrow> ?msgs = [FileMeta \<lparr>fileId = fid, name = name_f f, size_m = 0,
                   fileType = type_f f, totalChunks = 0\<rparr>, FileComplete fid]"
    using assms(1) by simp
  have recv: "\<forall>ts r cfg'. length ts = length ?msgs \<longrightarrow>
                 completedFiles (run cfg' (map2 Data ts ?msgs) r) fid
                   = Some \<lparr>name_c = name_f f, size_c = size_f f,
                           url = \<lparr>blob_bytes = content f, blob_type = normalizeType (type_f f)\<rparr>,
                           downloaded = False\<rparr>
                 \<and> map_of (receivingFiles (run cfg' (map2 Data ts ?msgs) r)) fid = None"
  proof (intro allI impI)
    fix ts :: "nat list" and r :: state and cfg' :: config
    assume "length ts = length ?msgs"
    then have len: "length ts = Suc (Suc ?n)" by simp
    from recv_file[OF len _ _ bound, of ?m fid cfg' ?g r] all
    show "completedFiles (run cfg' (map2 Data ts ?msgs) r) fid
                   = Some \<lparr>name_c = name_f f, size_c = size_f f,
                           url = \<lparr>blob_bytes = content f, blob_type = normalizeType (type_f f)\<rparr>,
                           downloaded = False\<rparr>
                 \<and> map_of (receivingFiles (run cfg' (map2 Data ts ?msgs) r)) fid = None"
      by simp
  qed
  show ?thesis
    apply (rule exI)
    apply (rule exI[of _ ?c'])
    apply (rule exI[of _ ?msgs])
    apply (intro conjI)
        apply (rule run)
       apply simp
      apply simp
     apply (rule empty)
    apply (rule recv)
    done
qed


text \<open>
  The theorem at a file of five bytes with a chunk size of two, and at the empty file with
  the chunk size of the script.
\<close>

theorem split_assemble_roundtrip_witness:
  "0 < CHUNK_SIZE \<lparr>CHUNK_SIZE = 2, HEARTBEAT_INTERVAL = 5000, HEARTBEAT_TIMEOUT = 15000,
                    TRANSFER_TIMEOUT = 30000\<rparr>
   \<and> totalChunksOf 5 2 = Some 3 \<and> totalChunksOf 0 (CHUNK_SIZE CONFIG) = Some 0
   \<and> (3::nat) < 4294967296
   \<and> (\<exists>s' c'.
        sendFile \<lparr>CHUNK_SIZE = 2, HEARTBEAT_INTERVAL = 5000, HEARTBEAT_TIMEOUT = 15000,
                  TRANSFER_TIMEOUT = 30000\<rparr> ''x''
          \<lparr>name_f = ''a'', type_f = ''text/plain'', content = [1, 2, 3, 4, 5]\<rparr>
          \<lparr>connection = Some \<lparr>open_c = True, sent = []\<rparr>, receivingFiles = [], receivingProto = None,
           completedFiles = Map.empty, lastHeartbeat = 0, heartbeatTimer = True,
           heartbeatCheckTimer = True, transferCheckTimer = True, textInput = [], ui = [], uncaught = []\<rparr>
          = Some (Inr s')
        \<and> connection s' = Some c'
        \<and> sent c' =
            [FileMeta \<lparr>fileId = ''x'', name = ''a'', size_m = 5, fileType = ''text/plain'', totalChunks = 3\<rparr>,
             FileChunk ''x'' 0 [1, 2], FileChunk ''x'' 1 [3, 4], FileChunk ''x'' 2 [5],
             FileComplete ''x'']
        \<and> completedFiles
             (run CONFIG (map2 Data [10, 20, 30, 40, 50] (sent c'))
                \<lparr>connection = Some \<lparr>open_c = True, sent = []\<rparr>, receivingFiles = [], receivingProto = None,
                 completedFiles = Map.empty, lastHeartbeat = 0, heartbeatTimer = True,
                 heartbeatCheckTimer = True, transferCheckTimer = True, textInput = [], ui = [], uncaught = []\<rparr>)
             ''x''
            = Some \<lparr>name_c = ''a'', size_c = 5,
                    url = \<lparr>blob_bytes = [1, 2, 3, 4, 5], blob_type = ''text/plain''\<rparr>,
                    downloaded = False\<rparr>)
   \<and> (\<exists>s' c'.
        sendFile CONFIG ''y'' \<lparr>name_f = ''e'', type_f = ''text/plain'', content = []\<rparr>
          \<lparr>connection = Some \<lparr>open_c = True, sent = []\<rparr>, receivingFiles = [], receivingProto = None,
           completedFiles = Map.empty, lastHeartbeat = 0, heartbeatTimer = True,
           heartbeatCheckTimer = True, transferCheckTimer = True, textInput = [], ui = [], uncaught = []\<rparr>
          = Some (Inr s')
        \<and> connection s' = Some c'
        \<and> sent c' =
            [FileMeta \<lparr>fileId = ''y'', name = ''e'', size_m = 0, fileType = ''text/plain'', totalChunks = 0\<rparr>,
             FileComplete ''y'']
        \<and> completedFiles
             (run CONFIG (map2 Data [10, 20] (sent c'))
                \<lparr>connection = Some \<lparr>open_c = True, sent = []\<rparr>, receivingFiles = [], receivingProto = None,
                 completedFiles = Map.empty, lastHeartbeat = 0, heartbeatTimer = True,
                 heartbeatCheckTimer = True, transferCheckTimer = True, textInput = [], ui = [], uncaught = []\<rparr>)
             ''y''
            = Some \<lparr>name_c = ''e'', size_c = 0,
                    url = \<lparr>blob_bytes = [], blob_type = ''text/plain''\<rparr>,
                    downloaded = False\<rparr>)"
proof -
  let ?cfg = "\<lparr>CHUNK_SIZE = 2, HEARTBEAT_INTERVAL = 5000, HEARTBEAT_TIMEOUT = 15000,
                    TRANSFER_TIMEOUT = 30000\<rparr>"
  let ?f = "\<lparr>name_f = ''a'', type_f = ''text/plain'', content = [1, 2, 3, 4, 5::byte]\<rparr>"
  let ?e = "\<lparr>name_f = ''e'', type_f = ''text/plain'', content = [] :: bytes\<rparr>"
  let ?c = "\<lparr>open_c = True, sent = []\<rparr>"
  let ?s = "\<lparr>connection = Some ?c, receivingFiles = [], receivingProto = None,
           completedFiles = Map.empty, lastHeartbeat = 0, heartbeatTimer = True,
           heartbeatCheckTimer = True, transferCheckTimer = True, textInput = [], ui = [], uncaught = []\<rparr>"
  have h1: "0 < CHUNK_SIZE ?cfg" by simp
  have h1': "0 < CHUNK_SIZE CONFIG" by (simp add: CONFIG_def)
  have h2: "connection ?s = Some ?c" by simp
  have t3: "totalChunksOf 5 2 = Some 3" by (simp add: totalChunksOf_def)
  have t0: "totalChunksOf 0 (CHUNK_SIZE CONFIG) = Some 0" by (simp add: totalChunksOf_def CONFIG_def)
  have h3: "totalChunksOf (size_f ?f) (CHUNK_SIZE ?cfg) = Some 3"
    by (simp add: totalChunksOf_def size_f_def)
  have h3': "totalChunksOf (size_f ?e) (CHUNK_SIZE CONFIG) = Some 0"
    by (simp add: totalChunksOf_def size_f_def CONFIG_def)
  have h4: "(3::nat) < 4294967296" by simp
  have h4': "(0::nat) < 4294967296" by simp
  have ty: "normalizeType ''text/plain'' = ''text/plain''"
    by (simp add: normalizeType_def lowerChar_def)
  have A: "\<exists>s' c'. sendFile ?cfg ''x'' ?f ?s = Some (Inr s') \<and> connection s' = Some c'
        \<and> sent c' =
            [FileMeta \<lparr>fileId = ''x'', name = ''a'', size_m = 5, fileType = ''text/plain'', totalChunks = 3\<rparr>,
             FileChunk ''x'' 0 [1, 2], FileChunk ''x'' 1 [3, 4], FileChunk ''x'' 2 [5],
             FileComplete ''x'']
        \<and> completedFiles (run CONFIG (map2 Data [10, 20, 30, 40, 50] (sent c')) ?s) ''x''
            = Some \<lparr>name_c = ''a'', size_c = 5,
                    url = \<lparr>blob_bytes = [1, 2, 3, 4, 5], blob_type = ''text/plain''\<rparr>,
                    downloaded = False\<rparr>"
  proof -
    from split_assemble_roundtrip[where fid = "''x''", OF h1 h2 h3 h4]
    obtain s' c' msgs where a: "sendFile ?cfg ''x'' ?f ?s = Some (Inr s')"
      and b: "connection s' = Some c'" and c: "sent c' = sent ?c @ msgs"
      and e: "\<forall>ts r cfg'. length ts = length msgs \<longrightarrow>
                 completedFiles (run cfg' (map2 Data ts msgs) r) ''x''
                   = Some \<lparr>name_c = name_f ?f, size_c = size_f ?f,
                           url = \<lparr>blob_bytes = content ?f, blob_type = normalizeType (type_f ?f)\<rparr>,
                           downloaded = False\<rparr>
                 \<and> map_of (receivingFiles (run cfg' (map2 Data ts msgs) r)) ''x'' = None"
      by (elim exE conjE)
    have sz: "size_f ?f = 5" by (simp add: size_f_def)
    have u: "[0..<3] = [0, 1, 2::nat]" by (simp add: upt_rec)
    from a b c sendFile_run[OF h1 h2, of "''x''" ?f]
    have msgs: "msgs = [FileMeta \<lparr>fileId = ''x'', name = ''a'', size_m = 5, fileType = ''text/plain'', totalChunks = 3\<rparr>,
             FileChunk ''x'' 0 [1, 2], FileChunk ''x'' 1 [3, 4], FileChunk ''x'' 2 [5],
             FileComplete ''x'']"
      by (auto simp add: sz u)
    have "length [10, 20, 30, 40, 50::nat] = length msgs" unfolding msgs by simp
    with e have "completedFiles (run CONFIG (map2 Data [10, 20, 30, 40, 50] msgs) ?s) ''x''
                   = Some \<lparr>name_c = name_f ?f, size_c = size_f ?f,
                           url = \<lparr>blob_bytes = content ?f, blob_type = normalizeType (type_f ?f)\<rparr>,
                           downloaded = False\<rparr>"
      by blast
    with a b c msgs sz ty show ?thesis by simp
  qed
  have B: "\<exists>s' c'. sendFile CONFIG ''y'' ?e ?s = Some (Inr s') \<and> connection s' = Some c'
        \<and> sent c' =
            [FileMeta \<lparr>fileId = ''y'', name = ''e'', size_m = 0, fileType = ''text/plain'', totalChunks = 0\<rparr>,
             FileComplete ''y'']
        \<and> completedFiles (run CONFIG (map2 Data [10, 20] (sent c')) ?s) ''y''
            = Some \<lparr>name_c = ''e'', size_c = 0,
                    url = \<lparr>blob_bytes = [], blob_type = ''text/plain''\<rparr>,
                    downloaded = False\<rparr>"
  proof -
    from split_assemble_roundtrip[where fid = "''y''", OF h1' h2 h3' h4']
    obtain s' c' msgs where a: "sendFile CONFIG ''y'' ?e ?s = Some (Inr s')"
      and b: "connection s' = Some c'" and c: "sent c' = sent ?c @ msgs"
      and d: "size_f ?e = 0 \<longrightarrow>
                 msgs = [FileMeta \<lparr>fileId = ''y'', name = name_f ?e, size_m = 0, fileType = type_f ?e,
                                   totalChunks = 0\<rparr>, FileComplete ''y'']"
      and e: "\<forall>ts r cfg'. length ts = length msgs \<longrightarrow>
                 completedFiles (run cfg' (map2 Data ts msgs) r) ''y''
                   = Some \<lparr>name_c = name_f ?e, size_c = size_f ?e,
                           url = \<lparr>blob_bytes = content ?e, blob_type = normalizeType (type_f ?e)\<rparr>,
                           downloaded = False\<rparr>
                 \<and> map_of (receivingFiles (run cfg' (map2 Data ts msgs) r)) ''y'' = None"
      by (elim exE conjE)
    have sz: "size_f ?e = 0" by (simp add: size_f_def)
    from d sz have msgs: "msgs = [FileMeta \<lparr>fileId = ''y'', name = ''e'', size_m = 0, fileType = ''text/plain'',
                                   totalChunks = 0\<rparr>, FileComplete ''y'']"
      by simp
    have "length [10, 20::nat] = length msgs" unfolding msgs by simp
    with e have "completedFiles (run CONFIG (map2 Data [10, 20] msgs) ?s) ''y''
                   = Some \<lparr>name_c = name_f ?e, size_c = size_f ?e,
                           url = \<lparr>blob_bytes = content ?e, blob_type = normalizeType (type_f ?e)\<rparr>,
                           downloaded = False\<rparr>"
      by blast
    with a b c msgs sz ty show ?thesis by simp
  qed
  from h1 t3 t0 h4 A B show ?thesis by (intro conjI)
qed

lemma steps_eval:
  "run cfg (Data t m # es) s = run cfg es (handleData t m s)"
  by (simp add: run_Cons step_def)

lemma replicate_numeral: "replicate (numeral k) x = x # replicate (pred_numeral k) x"
  by (simp add: numeral_eq_Suc)


subsection \<open>A slot array that cannot be created\<close>

lemma missing_chunk_data:
  "lookupFile s fid = Missing \<Longrightarrow> handleData t (FileChunk fid i d) s = s\<lparr>lastHeartbeat := t\<rparr>"
proof -
  assume a: "lookupFile s fid = Missing"
  have "lookupFile (s\<lparr>lastHeartbeat := t\<rparr>) fid = lookupFile s fid"
    by (rule lookupFile_cong) simp_all
  with a show ?thesis by (simp add: handleData_def receiveFileChunk_def)
qed

lemma missing_complete_data:
  "lookupFile s fid = Missing \<Longrightarrow> handleData t (FileComplete fid) s = s\<lparr>lastHeartbeat := t\<rparr>"
proof -
  assume a: "lookupFile s fid = Missing"
  have "lookupFile (s\<lparr>lastHeartbeat := t\<rparr>) fid = lookupFile s fid"
    by (rule lookupFile_cong) simp_all
  with a show ?thesis by (simp add: handleData_def receiveFileComplete_def)
qed

lemma missing_chunks_run:
  assumes "lookupFile s fid = Missing" and "lastHeartbeat s = t"
  shows "run cfg (map (Data t) (map (\<lambda>j. FileChunk fid j (g j)) js)) s = s"
proof (induction js)
  case Nil
  show ?case by (simp add: run_Nil)
next
  case (Cons j js)
  have "handleData t (FileChunk fid j (g j)) s = s"
    using assms by (simp add: missing_chunk_data)
  with Cons show ?case by (simp add: steps_eval)
qed

lemma oversized_transfer:
  assumes "0 < CHUNK_SIZE cfg"
    and "4294967296 \<le> (size_f f + CHUNK_SIZE cfg - 1) div CHUNK_SIZE cfg"
    and "lookupFile r fid = Missing" and "lastHeartbeat r = t"
  shows "run cfg' (map (Data t)
            (outbox (sendFile cfg fid f (s\<lparr>connection := Some \<lparr>open_c = True, sent = []\<rparr>\<rparr>)))) r
         = r\<lparr>uncaught := uncaught r @ [RangeError]\<rparr>"
proof -
  let ?n = "(size_f f + CHUNK_SIZE cfg - 1) div CHUNK_SIZE cfg"
  let ?g = "\<lambda>j. take (CHUNK_SIZE cfg) (drop (j * CHUNK_SIZE cfg) (content f))"
  let ?m = "\<lparr>fileId = fid, name = name_f f, size_m = size_f f, fileType = type_f f,
             totalChunks = ?n\<rparr>"
  let ?r1 = "r\<lparr>uncaught := uncaught r @ [RangeError]\<rparr>"
  have c: "connection (s\<lparr>connection := Some \<lparr>open_c = True, sent = []\<rparr>\<rparr>)
             = Some \<lparr>open_c = True, sent = []\<rparr>"
    by simp
  have out: "outbox (sendFile cfg fid f (s\<lparr>connection := Some \<lparr>open_c = True, sent = []\<rparr>\<rparr>))
           = FileMeta ?m # map (\<lambda>j. FileChunk fid j (?g j)) [0..<?n] @ [FileComplete fid]"
    unfolding sendFile_run[OF assms(1) c] by (simp add: outbox_def)
  have meta: "handleData t (FileMeta ?m) r = ?r1"
    using assms(2,4) by (simp add: handleData_def receiveFileMeta_def)
  have "lookupFile ?r1 fid = lookupFile r fid"
    by (rule lookupFile_cong) simp_all
  with assms(3) have miss: "lookupFile ?r1 fid = Missing" by simp
  have hb: "lastHeartbeat ?r1 = t" using assms(4) by simp
  have chunks: "run cfg' (map (Data t) (map (\<lambda>j. FileChunk fid j (?g j)) [0..<?n])) ?r1 = ?r1"
    using miss hb by (rule missing_chunks_run)
  have compl: "handleData t (FileComplete fid) ?r1 = ?r1"
    using miss hb by (simp add: missing_complete_data)
  have "run cfg' (map (Data t)
            (FileMeta ?m # map (\<lambda>j. FileChunk fid j (?g j)) [0..<?n] @ [FileComplete fid])) r
        = run cfg' [Data t (FileComplete fid)]
            (run cfg' (map (Data t) (map (\<lambda>j. FileChunk fid j (?g j)) [0..<?n]))
               (handleData t (FileMeta ?m) r))"
    unfolding list.map map_append steps_eval run_append by (rule refl)
  also have "\<dots> = run cfg' [Data t (FileComplete fid)] ?r1"
    unfolding meta chunks by (rule refl)
  also have "\<dots> = ?r1"
    unfolding steps_eval run_Nil compl by (rule refl)
  finally show ?thesis
    unfolding out .
qed

text \<open>
  C1, as stated, fails from \<open>2^32\<close> chunks on. A file of \<open>2^48\<close> bytes at the chunk
  size of the script, and a file of \<open>2^32\<close> bytes at a chunk size of one, have \<open>2^32\<close>
  chunks each. \<^verbatim>\<open>sendFile\<close> emits
  the meta message, the chunks and the completion message; at a receiver in the state of
  page load \<^verbatim>\<open>new Array(data.totalChunks)\<close> throws, no entry is made, every chunk and the
  completion message find no entry, and the receiver ends as it began but for the
  exception: nothing is assembled.
\<close>

theorem oversized_roundtrip_counterexample:
  "run CONFIG (map (Data 0)
      (outbox (sendFile CONFIG ''file_1''
         \<lparr>name_f = ''big'', type_f = ''text/plain'', content = replicate 281474976710656 0\<rparr>
         (initial\<lparr>connection := Some \<lparr>open_c = True, sent = []\<rparr>\<rparr>)))) initial
     = initial\<lparr>uncaught := [RangeError]\<rparr>
   \<and> run CONFIG (map (Data 0)
      (outbox (sendFile (CONFIG\<lparr>CHUNK_SIZE := 1\<rparr>) ''file_1''
         \<lparr>name_f = ''big'', type_f = ''text/plain'', content = replicate 4294967296 0\<rparr>
         (initial\<lparr>connection := Some \<lparr>open_c = True, sent = []\<rparr>\<rparr>)))) initial
     = initial\<lparr>uncaught := [RangeError]\<rparr>
   \<and> completedFiles (initial\<lparr>uncaught := [RangeError]\<rparr>) ''file_1'' = None"
proof -
  have miss: "lookupFile initial ''file_1'' = Missing"
    by (simp add: lookupFile_def initial_def prototypeMembers_def)
  have hb: "lastHeartbeat initial = 0" by (simp add: initial_def)
  have u: "uncaught initial = []" by (simp add: initial_def)
  have a1: "0 < CHUNK_SIZE CONFIG" by (simp add: CONFIG_def)
  have a2: "4294967296 \<le> (size_f \<lparr>name_f = ''big'', type_f = ''text/plain'',
               content = replicate 281474976710656 (0::byte)\<rparr> + CHUNK_SIZE CONFIG - 1)
               div CHUNK_SIZE CONFIG"
    by (simp add: size_f_def CONFIG_def)
  have b1: "0 < CHUNK_SIZE (CONFIG\<lparr>CHUNK_SIZE := 1\<rparr>)" by simp
  have b2: "4294967296 \<le> (size_f \<lparr>name_f = ''big'', type_f = ''text/plain'',
               content = replicate 4294967296 (0::byte)\<rparr> + CHUNK_SIZE (CONFIG\<lparr>CHUNK_SIZE := 1\<rparr>) - 1)
               div CHUNK_SIZE (CONFIG\<lparr>CHUNK_SIZE := 1\<rparr>)"
    by (simp add: size_f_def)
  note A = oversized_transfer[OF a1 a2 miss hb, of CONFIG initial]
  note B = oversized_transfer[OF b1 b2 miss hb, of CONFIG initial]
  have C: "completedFiles (initial\<lparr>uncaught := [RangeError]\<rparr>) ''file_1'' = None"
    by (simp add: initial_def)
  from A B C show ?thesis by (simp add: u)
qed

lemmas receive_defs =
  handleData_def receiveFileMeta_def receiveFileChunk_def receiveFileComplete_def receiveText_def
  createFileItemElement_def updateFileProgress_def updateFileStatus_def showToast_def
  array_set_def percent_def newBlob_def blobPart_def undefined_text_def normalizeType_def
  lowerChar_def lookupFile_def setFile_def deleteFile_def prototypeMembers_def Let_def

subsection \<open>Completion with unset slots\<close>

text \<open>
  C2, as stated, fails: the script makes no check of the slots at assembly time. A transfer
  announced with three chunks receives chunks 0 and 1 only; slot 2 is still a hole when
  the completion message is processed. Nothing fails: the transfer is recorded in
  \<^verbatim>\<open>completedFiles\<close>, the page is handed a download URL and the notice is the success
  notice; the blob holds the four bytes received and the text \<^verbatim>\<open>undefined\<close> for the hole;
  no exception is raised.
\<close>

theorem incomplete_assembly_counterexample:
  "map_of (receivingFiles
      (run CONFIG
         [Data 1 (FileMeta \<lparr>fileId = ''x'', name = ''a'', size_m = 5, fileType = ''text/plain'', totalChunks = 3\<rparr>),
          Data 2 (FileChunk ''x'' 0 [1, 2]),
          Data 3 (FileChunk ''x'' 1 [3, 4])] initial)) ''x''
     = Some \<lparr>meta = \<lparr>fileId = ''x'', name = ''a'', size_m = 5, fileType = ''text/plain'', totalChunks = 3\<rparr>,
             chunks = [Some [1, 2], Some [3, 4], None], receivedSize = 4, lastUpdate = 3\<rparr>
   \<and> completedFiles
      (run CONFIG
         [Data 1 (FileMeta \<lparr>fileId = ''x'', name = ''a'', size_m = 5, fileType = ''text/plain'', totalChunks = 3\<rparr>),
          Data 2 (FileChunk ''x'' 0 [1, 2]),
          Data 3 (FileChunk ''x'' 1 [3, 4]),
          Data 4 (FileComplete ''x'')] initial) ''x''
     = Some \<lparr>name_c = ''a'', size_c = 5,
             url = \<lparr>blob_bytes = [1, 2, 3, 4, 0x75, 0x6E, 0x64, 0x65, 0x66, 0x69, 0x6E, 0x65, 0x64],
                    blob_type = ''text/plain''\<rparr>,
             downloaded = False\<rparr>
   \<and> ui (run CONFIG
         [Data 1 (FileMeta \<lparr>fileId = ''x'', name = ''a'', size_m = 5, fileType = ''text/plain'', totalChunks = 3\<rparr>),
          Data 2 (FileChunk ''x'' 0 [1, 2]),
          Data 3 (FileChunk ''x'' 1 [3, 4]),
          Data 4 (FileComplete ''x'')] initial)
     = [FileItem ''x'' ''a'' 5 Receiving, Progress ''x'' (Num 40), Progress ''x'' (Num 80),
        StatusCompleted ''x''
          (Some \<lparr>blob_bytes = [1, 2, 3, 4, 0x75, 0x6E, 0x64, 0x65, 0x66, 0x69, 0x6E, 0x65, 0x64],
                  blob_type = ''text/plain''\<rparr>) (Some ''a''),
        Toast (FileReceived ''a'') Success]
   \<and> uncaught (run CONFIG
         [Data 1 (FileMeta \<lparr>fileId = ''x'', name = ''a'', size_m = 5, fileType = ''text/plain'', totalChunks = 3\<rparr>),
          Data 2 (FileChunk ''x'' 0 [1, 2]),
          Data 3 (FileChunk ''x'' 1 [3, 4]),
          Data 4 (FileComplete ''x'')] initial)
     = []"
  by (simp add: steps_eval run_Nil receive_defs initial_def replicate_numeral)

text \<open>
  C2, amended. For every inbound transfer that the completion handler finds, whatever
  slots are unset when its completion message is processed, no check is made and nothing
  fails: the transfer is recorded as completed with a blob that concatenates the slots in
  index order (an unset slot contributing the text \<^verbatim>\<open>undefined\<close>) and carries the
  announced type as \<^verbatim>\<open>new Blob\<close> normalises it, the page gets the download URL and the
  success notice, no exception is raised, the \<^verbatim>\<open>delete\<close> statement removes the property
  of that name from \<^verbatim>\<open>receivingFiles\<close> (its own properties only: the prototype of the
  object is as before), and the connection and all other properties are untouched.
\<close>

theorem complete_without_slot_check:
  assumes "lookupFile s fid = Entry fd"
  shows "completedFiles (handleData now (FileComplete fid) s) fid
           = Some \<lparr>name_c = name (meta fd), size_c = size_m (meta fd),
                   url = \<lparr>blob_bytes = concat (map blobPart (chunks fd)),
                          blob_type = normalizeType (fileType (meta fd))\<rparr>,
                   downloaded = False\<rparr>
       \<and> ui (handleData now (FileComplete fid) s)
           = ui s @ [StatusCompleted fid
                       (Some \<lparr>blob_bytes = concat (map blobPart (chunks fd)),
                               blob_type = normalizeType (fileType (meta fd))\<rparr>)
                       (Some (name (meta fd))),
                     Toast (FileReceived (name (meta fd))) Success]
       \<and> uncaught (handleData now (FileComplete fid) s) = uncaught s
       \<and> receivingFiles (handleData now (FileComplete fid) s) = AList.delete fid (receivingFiles s)
       \<and> receivingProto (handleData now (FileComplete fid) s) = receivingProto s
       \<and> connection (handleData now (FileComplete fid) s) = connection s
       \<and> (\<forall>k. k \<noteq> fid \<longrightarrow>
             map_of (receivingFiles (handleData now (FileComplete fid) s)) k
               = map_of (receivingFiles s) k)"
  unfolding handleData_complete[OF assms]
  by (simp add: newBlob_def delete_conv')

text \<open>
  An instance: slot 1 of three is unset.
\<close>

theorem complete_without_slot_check_witness:
  "lookupFile
      (initial\<lparr>receivingFiles :=
         [(''x'', \<lparr>meta = \<lparr>fileId = ''x'', name = ''a'', size_m = 5, fileType = ''Text/Plain'', totalChunks = 3\<rparr>,
                  chunks = [Some [1, 2], None, Some [5]], receivedSize = 3, lastUpdate = 3\<rparr>)]\<rparr>) ''x''
     = Entry \<lparr>meta = \<lparr>fileId = ''x'', name = ''a'', size_m = 5, fileType = ''Text/Plain'', totalChunks = 3\<rparr>,
             chunks = [Some [1, 2], None, Some [5]], receivedSize = 3, lastUpdate = 3\<rparr>
   \<and> completedFiles (handleData 4 (FileComplete ''x'')
      (initial\<lparr>receivingFiles :=
         [(''x'', \<lparr>meta = \<lparr>fileId = ''x'', name = ''a'', size_m = 5, fileType = ''Text/Plain'', totalChunks = 3\<rparr>,
                  chunks = [Some [1, 2], None, Some [5]], receivedSize = 3, lastUpdate = 3\<rparr>)]\<rparr>)) ''x''
     = Some \<lparr>name_c = ''a'', size_c = 5,
             url = \<lparr>blob_bytes = [1, 2, 0x75, 0x6E, 0x64, 0x65, 0x66, 0x69, 0x6E, 0x65, 0x64, 5],
                    blob_type = ''text/plain''\<rparr>,
             downloaded = False\<rparr>
   \<and> receivingFiles (handleData 4 (FileComplete ''x'')
      (initial\<lparr>receivingFiles :=
         [(''x'', \<lparr>meta = \<lparr>fileId = ''x'', name = ''a'', size_m = 5, fileType = ''Text/Plain'', totalChunks = 3\<rparr>,
                  chunks = [Some [1, 2], None, Some [5]], receivedSize = 3, lastUpdate = 3\<rparr>)]\<rparr>))
     = []
   \<and> uncaught (handleData 4 (FileComplete ''x'')
      (initial\<lparr>receivingFiles :=
         [(''x'', \<lparr>meta = \<lparr>fileId = ''x'', name = ''a'', size_m = 5, fileType = ''Text/Plain'', totalChunks = 3\<rparr>,
                  chunks = [Some [1, 2], None, Some [5]], receivedSize = 3, lastUpdate = 3\<rparr>)]\<rparr>))
     = []"
proof -
  let ?fd = "\<lparr>meta = \<lparr>fileId = ''x'', name = ''a'', size_m = 5, fileType = ''Text/Plain'', totalChunks = 3\<rparr>,
             chunks = [Some [1, 2], None, Some [5::byte]], receivedSize = 3, lastUpdate = 3\<rparr>"
  let ?s = "initial\<lparr>receivingFiles := [(''x'', ?fd)]\<rparr>"
  have h: "lookupFile ?s ''x'' = Entry ?fd" by (simp add: lookupFile_def)
  have u: "uncaught ?s = []" by (simp add: initial_def)
  from complete_without_slot_check[OF h, of 4] h u show ?thesis
    by (simp add: blobPart_def undefined_text_def normalizeType_def lowerChar_def)
qed

subsection \<open>Duplicate and out-of-range chunk indices\<close>





subsection \<open>Transfers that are not tracked\<close>

lemma lookupFile_hb: "lookupFile (s\<lparr>lastHeartbeat := t\<rparr>) k = lookupFile s k"
  by (rule lookupFile_cong) simp_all

lemma setFile_other:
  "k \<noteq> fid \<Longrightarrow> map_of (receivingFiles (setFile k f s)) fid = map_of (receivingFiles s) fid"
  by (simp add: setFile_def update_conv')

lemma checkOne_lookup:
  "map_of (receivingFiles (checkOne cfg now s k')) k =
     (if k = k' \<and> (\<exists>f. map_of (receivingFiles s) k' = Some f \<and> expired cfg now f) then None
      else map_of (receivingFiles s) k)"
  by (auto simp add: checkOne_def showToast_def deleteFile_def delete_conv' Let_def
      split: option.splits)

lemma sweep_lookup:
  "map_of (receivingFiles (foldl (checkOne cfg now) s ks)) k =
     (if k \<in> set ks \<and> (\<exists>f. map_of (receivingFiles s) k = Some f \<and> expired cfg now f) then None
      else map_of (receivingFiles s) k)"
proof (induction ks arbitrary: s)
  case Nil
  show ?case by simp
next
  case (Cons k' ks)
  show ?case
    unfolding foldl_Cons Cons.IH checkOne_lookup by auto
qed

lemma checkOne_frame:
  "connection (checkOne cfg now s k) = connection s"
  "completedFiles (checkOne cfg now s k) = completedFiles s"
  "receivingProto (checkOne cfg now s k) = receivingProto s"
  "lastHeartbeat (checkOne cfg now s k) = lastHeartbeat s"
  "heartbeatTimer (checkOne cfg now s k) = heartbeatTimer s"
  "heartbeatCheckTimer (checkOne cfg now s k) = heartbeatCheckTimer s"
  "transferCheckTimer (checkOne cfg now s k) = transferCheckTimer s"
  "uncaught (checkOne cfg now s k) = uncaught s"
  "filter (delivers fid) (ui (checkOne cfg now s k)) = filter (delivers fid) (ui s)"
  "filter teardownMark (ui (checkOne cfg now s k)) = filter teardownMark (ui s)"
  by (simp_all add: checkOne_def showToast_def deleteFile_def Let_def delivers_def teardownMark_def
      split: option.splits)

lemma sweep_frame:
  "connection (foldl (checkOne cfg now) s ks) = connection s"
  "completedFiles (foldl (checkOne cfg now) s ks) = completedFiles s"
  "receivingProto (foldl (checkOne cfg now) s ks) = receivingProto s"
  "lastHeartbeat (foldl (checkOne cfg now) s ks) = lastHeartbeat s"
  "heartbeatTimer (foldl (checkOne cfg now) s ks) = heartbeatTimer s"
  "heartbeatCheckTimer (foldl (checkOne cfg now) s ks) = heartbeatCheckTimer s"
  "transferCheckTimer (foldl (checkOne cfg now) s ks) = transferCheckTimer s"
  "uncaught (foldl (checkOne cfg now) s ks) = uncaught s"
  "filter (delivers fid) (ui (foldl (checkOne cfg now) s ks)) = filter (delivers fid) (ui s)"
  "filter teardownMark (ui (foldl (checkOne cfg now) s ks)) = filter teardownMark (ui s)"
  by (induction ks arbitrary: s) (simp_all add: checkOne_frame)

lemma sweep_removes:
  assumes "map_of (receivingFiles s) fid = Some fd" and "expired cfg now fd"
  shows "map_of (receivingFiles (checkTransferTimeout cfg now s)) fid = None"
proof -
  from assms(1) have "fid \<in> set (map fst (receivingFiles s))"
    by (metis map_of_eq_None_iff option.distinct(1) set_map)
  with assms show ?thesis
    unfolding checkTransferTimeout_def sweep_lookup by auto
qed

lemma sweep_keeps_unknown:
  "map_of (receivingFiles s) fid = None \<Longrightarrow>
   map_of (receivingFiles (checkTransferTimeout cfg now s)) fid = None"
  unfolding checkTransferTimeout_def sweep_lookup by simp

lemma reset_frame:
  "connection (resetConnection s) = None"
  "receivingFiles (resetConnection s) = []"
  "receivingProto (resetConnection s) = None"
  "completedFiles (resetConnection s) = completedFiles s"
  "heartbeatTimer (resetConnection s) = False"
  "heartbeatCheckTimer (resetConnection s) = False"
  "transferCheckTimer (resetConnection s) = False"
  "uncaught (resetConnection s) = uncaught s"
  "ui (resetConnection s) = ui s @ [ConnectionStatusDisconnected, UiReset]"
  by (simp_all add: resetConnection_def stopHeartbeat_def)

text \<open>
  A transfer with an ordinary identifier that has no property in \<^verbatim>\<open>receivingFiles\<close>
  gets none, is not handed to the page and leaves its entry of \<^verbatim>\<open>completedFiles\<close> as
  it is, whatever event arrives that does not announce it.
\<close>

lemma step_unknown:
  assumes "map_of (receivingFiles s) fid = None" and "ordinary fid" and "\<not> announces fid ev"
  shows "map_of (receivingFiles (step cfg s ev)) fid = None
       \<and> delivered fid (step cfg s ev) = delivered fid s
       \<and> completedFiles (step cfg s ev) fid = completedFiles s fid"
proof (cases ev)
  case (Data t m)
  show ?thesis
  proof (cases m)
    case (FileMeta mt)
    with Data assms(3) have ne: "fileId mt \<noteq> fid" by (simp add: announces_def)
    from FileMeta Data assms(1) ne show ?thesis
      by (simp add: step_def handleData_def receiveFileMeta_def createFileItemElement_def
          delivered_def delivers_def setFile_other setFile_frame Let_def)
  next
    case (FileChunk f i d)
    show ?thesis
    proof (cases "f = fid")
      case True
      from assms(1,2) have "lookupFile s fid = Missing"
        by (simp add: lookupFile_ordinary)
      with True FileChunk Data assms(1) show ?thesis
        by (simp add: step_def handleData_def receiveFileChunk_def lookupFile_hb delivered_def)
    next
      case False
      with FileChunk Data assms(1) show ?thesis
        by (simp add: step_def handleData_def receiveFileChunk_def lookupFile_hb
            updateFileProgress_def delivered_def delivers_def setFile_other setFile_frame Let_def
            split: found.splits)
    qed
  next
    case (FileComplete f)
    show ?thesis
    proof (cases "f = fid")
      case True
      from assms(1,2) have "lookupFile s fid = Missing"
        by (simp add: lookupFile_ordinary)
      with True FileComplete Data assms(1) show ?thesis
        by (simp add: step_def handleData_def receiveFileComplete_def lookupFile_hb delivered_def)
    next
      case False
      with FileComplete Data assms(1) show ?thesis
        by (simp add: step_def handleData_def receiveFileComplete_def lookupFile_hb
            updateFileStatus_def showToast_def deleteFile_def delivered_def delivers_def
            delete_conv' Let_def split: found.splits)
    qed
  qed (use Data assms in \<open>simp_all add: step_def handleData_def receiveText_def showToast_def
          delivered_def delivers_def\<close>)
next
  case (HeartbeatTick t)
  with assms show ?thesis
    by (auto simp add: step_def heartbeatSend_def delivered_def split: option.splits)
next
  case (HeartbeatCheckTick t)
  with assms show ?thesis
    by (auto simp add: step_def heartbeatCheck_def reset_frame showToast_def delivered_def
        delivers_def split: option.splits)
next
  case (TransferCheckTick t)
  with assms show ?thesis
    by (simp add: step_def delivered_def checkTransferTimeout_def sweep_frame sweep_lookup)
next
  case CloseEvent
  with assms show ?thesis
    by (simp add: step_def reset_frame showToast_def delivered_def delivers_def)
qed

lemma run_unknown:
  assumes "map_of (receivingFiles s) fid = None" and "ordinary fid"
    and "\<forall>ev \<in> set evs. \<not> announces fid ev"
  shows "map_of (receivingFiles (run cfg evs s)) fid = None
       \<and> delivered fid (run cfg evs s) = delivered fid s
       \<and> completedFiles (run cfg evs s) fid = completedFiles s fid"
  using assms(1,3)
proof (induction evs arbitrary: s)
  case Nil
  then show ?case by (simp add: run_Nil)
next
  case (Cons ev evs)
  from Cons.prems have ev: "\<not> announces fid ev" and rest: "\<forall>e \<in> set evs. \<not> announces fid e"
    by simp_all
  note st = step_unknown[OF Cons.prems(1) assms(2) ev, of cfg]
  from st have u: "map_of (receivingFiles (step cfg s ev)) fid = None" by simp
  from Cons.IH[OF u rest] st show ?case by (simp add: run_Cons)
qed

lemma unknown_chunk_noop:
  "map_of (receivingFiles s) fid = None \<Longrightarrow> ordinary fid \<Longrightarrow> receiveFileChunk t fid i d s = s"
  by (simp add: receiveFileChunk_def lookupFile_ordinary)

lemma unknown_complete_noop:
  "map_of (receivingFiles s) fid = None \<Longrightarrow> ordinary fid \<Longrightarrow> receiveFileComplete fid s = s"
  by (simp add: receiveFileComplete_def lookupFile_ordinary)

lemma unknown_chunk_data:
  "map_of (receivingFiles s) fid = None \<Longrightarrow> ordinary fid \<Longrightarrow>
   handleData t (FileChunk fid i d) s = s\<lparr>lastHeartbeat := t\<rparr>"
  by (simp add: missing_chunk_data lookupFile_ordinary)

lemma unknown_complete_data:
  "map_of (receivingFiles s) fid = None \<Longrightarrow> ordinary fid \<Longrightarrow>
   handleData t (FileComplete fid) s = s\<lparr>lastHeartbeat := t\<rparr>"
  by (simp add: missing_complete_data lookupFile_ordinary)

subsection \<open>Timed-out transfers\<close>

text \<open>
  For an ordinary identifier the sweep does what it is meant to do. When it runs at a time
  \<open>now\<close> at which more than the transfer timeout has passed since the last activity of an
  inbound transfer, the transfer is removed from \<^verbatim>\<open>receivingFiles\<close>. It stays out through
  every later run of events that does not announce the identifier again, and every later
  \<^verbatim>\<open>file-chunk\<close> or \<^verbatim>\<open>file-complete\<close> message carrying the identifier is a no-op of the
  receiving function; \<^verbatim>\<open>handleData\<close> does no more for it than refresh the liveness time
  stamp. Time stamps are those of \<^verbatim>\<open>Date.now()\<close>, which are positive.
\<close>

lemma timed_out_ordinary_transfer:
  assumes "map_of (receivingFiles s) fid = Some fd"
    and "ordinary fid"
    and "0 < lastUpdate fd"
    and "TRANSFER_TIMEOUT cfg < now - lastUpdate fd"
    and "\<forall>ev \<in> set evs. \<not> announces fid ev"
  shows "map_of (receivingFiles (checkTransferTimeout cfg now s)) fid = None
     \<and> map_of (receivingFiles (run cfg evs (checkTransferTimeout cfg now s))) fid = None
     \<and> receiveFileChunk t fid i d (run cfg evs (checkTransferTimeout cfg now s))
         = run cfg evs (checkTransferTimeout cfg now s)
     \<and> receiveFileComplete fid (run cfg evs (checkTransferTimeout cfg now s))
         = run cfg evs (checkTransferTimeout cfg now s)
     \<and> handleData t (FileChunk fid i d) (run cfg evs (checkTransferTimeout cfg now s))
         = (run cfg evs (checkTransferTimeout cfg now s))\<lparr>lastHeartbeat := t\<rparr>
     \<and> handleData t (FileComplete fid) (run cfg evs (checkTransferTimeout cfg now s))
         = (run cfg evs (checkTransferTimeout cfg now s))\<lparr>lastHeartbeat := t\<rparr>"
proof -
  have ex: "expired cfg now fd" using assms(3,4) by (simp add: expired_def)
  have gone: "map_of (receivingFiles (checkTransferTimeout cfg now s)) fid = None"
    using assms(1) ex by (rule sweep_removes)
  from run_unknown[OF gone assms(2,5), of cfg]
  have later: "map_of (receivingFiles (run cfg evs (checkTransferTimeout cfg now s))) fid = None"
    by simp
  show ?thesis
    using gone later unknown_chunk_noop[OF later assms(2)] unknown_complete_noop[OF later assms(2)]
      unknown_chunk_data[OF later assms(2)] unknown_complete_data[OF later assms(2)]
    by (intro conjI)
qed

text \<open>
  The scenario of the specification: a transfer of three chunks receives two, the sweep
  runs after more than 30 seconds of silence, and the late third chunk and the late
  completion message change nothing.
\<close>

lemma timed_out_transfer_scenario:
  "map_of (receivingFiles
      (run CONFIG
          [Data 1000 (FileMeta \<lparr>fileId = ''X'', name = ''a'', size_m = 5, fileType = ''t'', totalChunks = 3\<rparr>),
           Data 1100 (FileChunk ''X'' 0 [1, 2]),
           Data 1200 (FileChunk ''X'' 1 [3, 4])] initial)) ''X''
     = Some \<lparr>meta = \<lparr>fileId = ''X'', name = ''a'', size_m = 5, fileType = ''t'', totalChunks = 3\<rparr>,
             chunks = [Some [1, 2], Some [3, 4], None], receivedSize = 4, lastUpdate = 1200\<rparr>
   \<and> map_of (receivingFiles
      (checkTransferTimeout CONFIG 40000
         (run CONFIG
          [Data 1000 (FileMeta \<lparr>fileId = ''X'', name = ''a'', size_m = 5, fileType = ''t'', totalChunks = 3\<rparr>),
           Data 1100 (FileChunk ''X'' 0 [1, 2]),
           Data 1200 (FileChunk ''X'' 1 [3, 4])] initial))) ''X'' = None
   \<and> handleData 50000 (FileComplete ''X'')
      (run CONFIG [Data 41000 (FileChunk ''X'' 2 [5]), TransferCheckTick 45000]
        (checkTransferTimeout CONFIG 40000
         (run CONFIG
          [Data 1000 (FileMeta \<lparr>fileId = ''X'', name = ''a'', size_m = 5, fileType = ''t'', totalChunks = 3\<rparr>),
           Data 1100 (FileChunk ''X'' 0 [1, 2]),
           Data 1200 (FileChunk ''X'' 1 [3, 4])] initial)))
     = (run CONFIG [Data 41000 (FileChunk ''X'' 2 [5]), TransferCheckTick 45000]
        (checkTransferTimeout CONFIG 40000
         (run CONFIG
          [Data 1000 (FileMeta \<lparr>fileId = ''X'', name = ''a'', size_m = 5, fileType = ''t'', totalChunks = 3\<rparr>),
           Data 1100 (FileChunk ''X'' 0 [1, 2]),
           Data 1200 (FileChunk ''X'' 1 [3, 4])] initial)))\<lparr>lastHeartbeat := 50000\<rparr>
   \<and> handleData 50000 (FileChunk ''X'' 2 [5])
      (run CONFIG [Data 41000 (FileChunk ''X'' 2 [5]), TransferCheckTick 45000]
        (checkTransferTimeout CONFIG 40000
         (run CONFIG
          [Data 1000 (FileMeta \<lparr>fileId = ''X'', name = ''a'', size_m = 5, fileType = ''t'', totalChunks = 3\<rparr>),
           Data 1100 (FileChunk ''X'' 0 [1, 2]),
           Data 1200 (FileChunk ''X'' 1 [3, 4])] initial)))
     = (run CONFIG [Data 41000 (FileChunk ''X'' 2 [5]), TransferCheckTick 45000]
        (checkTransferTimeout CONFIG 40000
         (run CONFIG
          [Data 1000 (FileMeta \<lparr>fileId = ''X'', name = ''a'', size_m = 5, fileType = ''t'', totalChunks = 3\<rparr>),
           Data 1100 (FileChunk ''X'' 0 [1, 2]),
           Data 1200 (FileChunk ''X'' 1 [3, 4])] initial)))\<lparr>lastHeartbeat := 50000\<rparr>"
proof -
  let ?S = "(run CONFIG
          [Data 1000 (FileMeta \<lparr>fileId = ''X'', name = ''a'', size_m = 5, fileType = ''t'', totalChunks = 3\<rparr>),
           Data 1100 (FileChunk ''X'' 0 [1, 2]),
           Data 1200 (FileChunk ''X'' 1 [3, 4])] initial)"
  let ?fd = "\<lparr>meta = \<lparr>fileId = ''X'', name = ''a'', size_m = 5, fileType = ''t'', totalChunks = 3\<rparr>,
             chunks = [Some [1, 2], Some [3, 4::byte], None], receivedSize = 4, lastUpdate = 1200\<rparr>"
  have h1: "map_of (receivingFiles ?S) ''X'' = Some ?fd"
    by (simp add: steps_eval run_Nil receive_defs initial_def replicate_numeral)
  have h2: "0 < lastUpdate ?fd" by simp
  have h3: "TRANSFER_TIMEOUT CONFIG < 40000 - lastUpdate ?fd" by (simp add: CONFIG_def)
  have ho: "ordinary ''X''" by (simp add: ordinary_def prototypeMembers_def)
  have h4: "\<forall>ev \<in> set [Data 41000 (FileChunk ''X'' 2 [5]), TransferCheckTick 45000]. \<not> announces ''X'' ev"
    by (simp add: announces_def)
  from timed_out_ordinary_transfer[OF h1 ho h2 h3 h4, of 50000 2 "[5]"] h1
  show ?thesis by (elim conjE) (intro conjI)
qed

text \<open>
  C5 does not hold for the identifiers that a plain object inherits. A peer announces a
  transfer under the identifier \<^verbatim>\<open>constructor\<close> and sends one of its two chunks; the sweep runs
  after more than 30 seconds of silence, marks the transfer as timed out and deletes its
  property. The late second chunk then reads \<^verbatim>\<open>receivingFiles['constructor']\<close>, which is
  now the inherited function \<^verbatim>\<open>Object\<close>: it passes the test \<^verbatim>\<open>!fileData\<close>, and the
  assignment to \<^verbatim>\<open>fileData.chunks[1]\<close> throws a \<^verbatim>\<open>TypeError\<close>; so does a late completion
  message. A transfer announced under \<^verbatim>\<open>__proto__\<close> is installed as the prototype of
  \<^verbatim>\<open>receivingFiles\<close>: the sweep does not visit it, it is never timed out, and a completion
  message long after the timeout still hands it to the page. The receiver is in the state
  that the open event of a connection leaves.
\<close>

theorem inherited_key_after_timeout:
  "receivingFiles (run CONFIG
      [Data 1000 (FileMeta \<lparr>fileId = ''constructor'', name = ''a'', size_m = 4,
                            fileType = ''text/plain'', totalChunks = 2\<rparr>),
       Data 1100 (FileChunk ''constructor'' 0 [1, 2])]
      (startHeartbeat 0 (initial\<lparr>connection := Some \<lparr>open_c = True, sent = []\<rparr>\<rparr>)))
     = [(''constructor'',
         \<lparr>meta = \<lparr>fileId = ''constructor'', name = ''a'', size_m = 4,
                  fileType = ''text/plain'', totalChunks = 2\<rparr>,
          chunks = [Some [1, 2], None], receivedSize = 2, lastUpdate = 1100\<rparr>)]
   \<and> receivingFiles (run CONFIG
      [Data 1000 (FileMeta \<lparr>fileId = ''constructor'', name = ''a'', size_m = 4,
                            fileType = ''text/plain'', totalChunks = 2\<rparr>),
       Data 1100 (FileChunk ''constructor'' 0 [1, 2]),
       TransferCheckTick 40000]
      (startHeartbeat 0 (initial\<lparr>connection := Some \<lparr>open_c = True, sent = []\<rparr>\<rparr>))) = []
   \<and> ui (run CONFIG
      [Data 1000 (FileMeta \<lparr>fileId = ''constructor'', name = ''a'', size_m = 4,
                            fileType = ''text/plain'', totalChunks = 2\<rparr>),
       Data 1100 (FileChunk ''constructor'' 0 [1, 2]),
       TransferCheckTick 40000]
      (startHeartbeat 0 (initial\<lparr>connection := Some \<lparr>open_c = True, sent = []\<rparr>\<rparr>)))
     = [FileItem ''constructor'' ''a'' 4 Receiving, Progress ''constructor'' (Num 50),
        StatusTimeout ''constructor'', Toast (FileTimedOut ''a'') Error]
   \<and> uncaught (run CONFIG
      [Data 1000 (FileMeta \<lparr>fileId = ''constructor'', name = ''a'', size_m = 4,
                            fileType = ''text/plain'', totalChunks = 2\<rparr>),
       Data 1100 (FileChunk ''constructor'' 0 [1, 2]),
       TransferCheckTick 40000]
      (startHeartbeat 0 (initial\<lparr>connection := Some \<lparr>open_c = True, sent = []\<rparr>\<rparr>))) = []
   \<and> uncaught (run CONFIG
      [Data 1000 (FileMeta \<lparr>fileId = ''constructor'', name = ''a'', size_m = 4,
                            fileType = ''text/plain'', totalChunks = 2\<rparr>),
       Data 1100 (FileChunk ''constructor'' 0 [1, 2]),
       TransferCheckTick 40000,
       Data 41000 (FileChunk ''constructor'' 1 [3, 4])]
      (startHeartbeat 0 (initial\<lparr>connection := Some \<lparr>open_c = True, sent = []\<rparr>\<rparr>))) = [TypeError]
   \<and> uncaught (run CONFIG
      [Data 1000 (FileMeta \<lparr>fileId = ''constructor'', name = ''a'', size_m = 4,
                            fileType = ''text/plain'', totalChunks = 2\<rparr>),
       Data 1100 (FileChunk ''constructor'' 0 [1, 2]),
       TransferCheckTick 40000,
       Data 41000 (FileComplete ''constructor'')]
      (startHeartbeat 0 (initial\<lparr>connection := Some \<lparr>open_c = True, sent = []\<rparr>\<rparr>))) = [TypeError]
   \<and> lookupFile (run CONFIG
      [Data 1000 (FileMeta \<lparr>fileId = ''__proto__'', name = ''a'', size_m = 4,
                            fileType = ''text/plain'', totalChunks = 2\<rparr>),
       Data 1100 (FileChunk ''__proto__'' 0 [1, 2]),
       TransferCheckTick 40000]
      (startHeartbeat 0 (initial\<lparr>connection := Some \<lparr>open_c = True, sent = []\<rparr>\<rparr>))) ''__proto__''
     = Entry \<lparr>meta = \<lparr>fileId = ''__proto__'', name = ''a'', size_m = 4,
                      fileType = ''text/plain'', totalChunks = 2\<rparr>,
              chunks = [Some [1, 2], None], receivedSize = 2, lastUpdate = 1100\<rparr>
   \<and> ui (run CONFIG
      [Data 1000 (FileMeta \<lparr>fileId = ''__proto__'', name = ''a'', size_m = 4,
                            fileType = ''text/plain'', totalChunks = 2\<rparr>),
       Data 1100 (FileChunk ''__proto__'' 0 [1, 2]),
       TransferCheckTick 40000,
       Data 41000 (FileComplete ''__proto__'')]
      (startHeartbeat 0 (initial\<lparr>connection := Some \<lparr>open_c = True, sent = []\<rparr>\<rparr>)))
     = [FileItem ''__proto__'' ''a'' 4 Receiving, Progress ''__proto__'' (Num 50),
        StatusCompleted ''__proto__''
          (Some \<lparr>blob_bytes = [1, 2, 0x75, 0x6E, 0x64, 0x65, 0x66, 0x69, 0x6E, 0x65, 0x64],
                  blob_type = ''text/plain''\<rparr>) (Some ''a''),
        Toast (FileReceived ''a'') Success]"
  by (simp add: run_Cons run_Nil step_def receive_defs initial_def startHeartbeat_def
      stopHeartbeat_def checkTransferTimeout_def checkOne_def expired_def CONFIG_def
      replicate_numeral)

subsection \<open>Completed transfers\<close>

text \<open>
  C10, as stated, fails: nothing keeps an identifier from being announced again. A
  transfer of one chunk completes and its entry is deleted; a second \<^verbatim>\<open>file-meta\<close> with
  the same identifier makes a new entry, and the completion message that follows it is
  not a no-op: the page is handed a file under this identifier a second time.
\<close>

theorem reannounced_transfer_counterexample:
  "map_of (receivingFiles (run CONFIG
      [Data 1 (FileMeta \<lparr>fileId = ''x'', name = ''a'', size_m = 2, fileType = ''t'', totalChunks = 1\<rparr>),
       Data 2 (FileChunk ''x'' 0 [1, 2]),
       Data 3 (FileComplete ''x'')] initial)) ''x'' = None
   \<and> delivered ''x'' (run CONFIG
      [Data 1 (FileMeta \<lparr>fileId = ''x'', name = ''a'', size_m = 2, fileType = ''t'', totalChunks = 1\<rparr>),
       Data 2 (FileChunk ''x'' 0 [1, 2]),
       Data 3 (FileComplete ''x'')] initial) = 1
   \<and> delivered ''x'' (run CONFIG
      [Data 1 (FileMeta \<lparr>fileId = ''x'', name = ''a'', size_m = 2, fileType = ''t'', totalChunks = 1\<rparr>),
       Data 2 (FileChunk ''x'' 0 [1, 2]),
       Data 3 (FileComplete ''x''),
       Data 4 (FileMeta \<lparr>fileId = ''x'', name = ''a'', size_m = 2, fileType = ''t'', totalChunks = 1\<rparr>),
       Data 5 (FileComplete ''x'')] initial) = 2
   \<and> \<not> announces ''x'' (Data 5 (FileComplete ''x''))"
  by (simp add: steps_eval run_Nil receive_defs initial_def replicate_numeral delivered_def
      delivers_def announces_def)

text \<open>
  C10, amended. For an ordinary identifier (every identifier that \<^verbatim>\<open>generateFileId\<close>
  makes is one): once the completion message of an active inbound transfer has been
  processed, the transfer is out of \<^verbatim>\<open>receivingFiles\<close> and has been handed to the page
  once. Through every later run of events that does not announce the identifier again
  (later chunk and completion messages for it included) it stays out, the number of
  hand-overs stays at that one, its entry of \<^verbatim>\<open>completedFiles\<close> is not written again,
  and a later chunk or completion message for it only refreshes the liveness time stamp.
\<close>

theorem completed_transfer_is_delivered_once:
  assumes "map_of (receivingFiles s) fid = Some fd"
    and "ordinary fid"
    and "\<forall>ev \<in> set evs. \<not> announces fid ev"
  shows "map_of (receivingFiles (handleData t0 (FileComplete fid) s)) fid = None
     \<and> delivered fid (handleData t0 (FileComplete fid) s) = delivered fid s + 1
     \<and> map_of (receivingFiles (run cfg evs (handleData t0 (FileComplete fid) s))) fid = None
     \<and> delivered fid (run cfg evs (handleData t0 (FileComplete fid) s)) = delivered fid s + 1
     \<and> completedFiles (run cfg evs (handleData t0 (FileComplete fid) s)) fid
         = completedFiles (handleData t0 (FileComplete fid) s) fid
     \<and> handleData t (FileChunk fid i d) (run cfg evs (handleData t0 (FileComplete fid) s))
         = (run cfg evs (handleData t0 (FileComplete fid) s))\<lparr>lastHeartbeat := t\<rparr>
     \<and> handleData t (FileComplete fid) (run cfg evs (handleData t0 (FileComplete fid) s))
         = (run cfg evs (handleData t0 (FileComplete fid) s))\<lparr>lastHeartbeat := t\<rparr>"
proof -
  let ?s1 = "handleData t0 (FileComplete fid) s"
  note look = lookupFile_own[OF assms(1)]
  have gone: "map_of (receivingFiles ?s1) fid = None"
    unfolding handleData_complete[OF look] by (simp add: map_of_delete_same)
  have once: "delivered fid ?s1 = delivered fid s + 1"
    unfolding handleData_complete[OF look] by (simp add: delivered_def delivers_def)
  note later = run_unknown[OF gone assms(2,3), of cfg]
  from later have l1: "map_of (receivingFiles (run cfg evs ?s1)) fid = None" by simp
  from later once have l2: "delivered fid (run cfg evs ?s1) = delivered fid s + 1" by simp
  from later have l3: "completedFiles (run cfg evs ?s1) fid = completedFiles ?s1 fid" by simp
  show ?thesis
    using gone once l1 l2 l3 unknown_chunk_data[OF l1 assms(2)] unknown_complete_data[OF l1 assms(2)]
    by (intro conjI)
qed

text \<open>
  An instance: a transfer of two chunks completes; a second completion message and a
  late chunk follow.
\<close>

theorem completed_transfer_is_delivered_once_witness:
  "ordinary ''X''
   \<and> map_of (receivingFiles
      (run CONFIG
          [Data 1000 (FileMeta \<lparr>fileId = ''X'', name = ''a'', size_m = 4, fileType = ''t'', totalChunks = 2\<rparr>),
           Data 1100 (FileChunk ''X'' 0 [1, 2]),
           Data 1200 (FileChunk ''X'' 1 [3, 4])] initial)) ''X''
     = Some \<lparr>meta = \<lparr>fileId = ''X'', name = ''a'', size_m = 4, fileType = ''t'', totalChunks = 2\<rparr>,
             chunks = [Some [1, 2], Some [3, 4]], receivedSize = 4, lastUpdate = 1200\<rparr>
   \<and> delivered ''X''
      (run CONFIG
          [Data 1000 (FileMeta \<lparr>fileId = ''X'', name = ''a'', size_m = 4, fileType = ''t'', totalChunks = 2\<rparr>),
           Data 1100 (FileChunk ''X'' 0 [1, 2]),
           Data 1200 (FileChunk ''X'' 1 [3, 4])] initial) = 0
   \<and> delivered ''X''
      (run CONFIG [Data 1400 (FileComplete ''X''), Data 1500 (FileChunk ''X'' 0 [1, 2])]
        (handleData 1300 (FileComplete ''X'')
         (run CONFIG
          [Data 1000 (FileMeta \<lparr>fileId = ''X'', name = ''a'', size_m = 4, fileType = ''t'', totalChunks = 2\<rparr>),
           Data 1100 (FileChunk ''X'' 0 [1, 2]),
           Data 1200 (FileChunk ''X'' 1 [3, 4])] initial))) = 1
   \<and> map_of (receivingFiles
      (run CONFIG [Data 1400 (FileComplete ''X''), Data 1500 (FileChunk ''X'' 0 [1, 2])]
        (handleData 1300 (FileComplete ''X'')
         (run CONFIG
          [Data 1000 (FileMeta \<lparr>fileId = ''X'', name = ''a'', size_m = 4, fileType = ''t'', totalChunks = 2\<rparr>),
           Data 1100 (FileChunk ''X'' 0 [1, 2]),
           Data 1200 (FileChunk ''X'' 1 [3, 4])] initial)))) ''X'' = None
   \<and> handleData 1600 (FileComplete ''X'')
      (run CONFIG [Data 1400 (FileComplete ''X''), Data 1500 (FileChunk ''X'' 0 [1, 2])]
        (handleData 1300 (FileComplete ''X'')
         (run CONFIG
          [Data 1000 (FileMeta \<lparr>fileId = ''X'', name = ''a'', size_m = 4, fileType = ''t'', totalChunks = 2\<rparr>),
           Data 1100 (FileChunk ''X'' 0 [1, 2]),
           Data 1200 (FileChunk ''X'' 1 [3, 4])] initial)))
     = (run CONFIG [Data 1400 (FileComplete ''X''), Data 1500 (FileChunk ''X'' 0 [1, 2])]
        (handleData 1300 (FileComplete ''X'')
         (run CONFIG
          [Data 1000 (FileMeta \<lparr>fileId = ''X'', name = ''a'', size_m = 4, fileType = ''t'', totalChunks = 2\<rparr>),
           Data 1100 (FileChunk ''X'' 0 [1, 2]),
           Data 1200 (FileChunk ''X'' 1 [3, 4])] initial)))\<lparr>lastHeartbeat := 1600\<rparr>"
proof -
  let ?S = "(run CONFIG
          [Data 1000 (FileMeta \<lparr>fileId = ''X'', name = ''a'', size_m = 4, fileType = ''t'', totalChunks = 2\<rparr>),
           Data 1100 (FileChunk ''X'' 0 [1, 2]),
           Data 1200 (FileChunk ''X'' 1 [3, 4])] initial)"
  let ?fd = "\<lparr>meta = \<lparr>fileId = ''X'', name = ''a'', size_m = 4, fileType = ''t'', totalChunks = 2\<rparr>,
             chunks = [Some [1, 2], Some [3, 4::byte]], receivedSize = 4, lastUpdate = 1200\<rparr>"
  have h1: "map_of (receivingFiles ?S) ''X'' = Some ?fd"
    by (simp add: steps_eval run_Nil receive_defs initial_def replicate_numeral)
  have h2: "\<forall>ev \<in> set [Data 1400 (FileComplete ''X''), Data 1500 (FileChunk ''X'' 0 [1, 2])]. \<not> announces ''X'' ev"
    by (simp add: announces_def)
  have ho: "ordinary ''X''" by (simp add: ordinary_def prototypeMembers_def)
  have d0: "delivered ''X'' ?S = 0"
    by (simp add: steps_eval run_Nil receive_defs initial_def delivered_def delivers_def)
  from completed_transfer_is_delivered_once[OF h1 ho h2, of 1300 CONFIG 1600 0 "[]"] h1 d0 ho
  show ?thesis by simp
qed

subsection \<open>The liveness check\<close>

lemma handleData_session:
  "connection (handleData t m s) = connection s"
  "lastHeartbeat (handleData t m s) = t"
  "filter teardownMark (ui (handleData t m s)) = filter teardownMark (ui s)"
  by (cases m; simp add: handleData_def receiveFileMeta_def receiveFileChunk_def
      receiveFileComplete_def receiveText_def createFileItemElement_def updateFileProgress_def
      updateFileStatus_def showToast_def setFile_frame deleteFile_def teardownMark_def Let_def
      split: found.splits)+

lemma step_torn_down:
  assumes "connection s = None"
  shows "connection (step cfg s ev) = None
       \<and> (ev \<noteq> CloseEvent \<longrightarrow>
            filter teardownMark (ui (step cfg s ev)) = filter teardownMark (ui s))"
proof (cases ev)
  case (Data t m)
  with assms show ?thesis by (simp add: step_def handleData_session)
next
  case (HeartbeatTick t)
  with assms show ?thesis by (simp add: step_def heartbeatSend_def)
next
  case (HeartbeatCheckTick t)
  with assms show ?thesis by (simp add: step_def heartbeatCheck_def)
next
  case (TransferCheckTick t)
  with assms show ?thesis by (simp add: step_def checkTransferTimeout_def sweep_frame)
next
  case CloseEvent
  with assms show ?thesis by (simp add: step_def reset_frame showToast_def)
qed

lemma run_torn_down:
  assumes "connection s = None"
  shows "connection (run cfg evs s) = None
       \<and> (CloseEvent \<notin> set evs \<longrightarrow>
            filter teardownMark (ui (run cfg evs s)) = filter teardownMark (ui s))"
  using assms
proof (induction evs arbitrary: s)
  case Nil
  then show ?case by (simp add: run_Nil)
next
  case (Cons ev evs)
  note st = step_torn_down[OF Cons.prems, of cfg ev]
  from st have c: "connection (step cfg s ev) = None" by simp
  from Cons.IH[OF c] st show ?case by (auto simp add: run_Cons)
qed

text \<open>
  C6, as stated, fails in its last part: the teardown is not protected against a second
  run. The liveness check tears a session down whose connection reports closed; when the
  close event of that connection is delivered afterwards, its handler shows a second error
  notice and resets the page a second time.
\<close>

theorem teardown_twice_counterexample:
  "ui (run CONFIG [HeartbeatCheckTick 20000]
        (startHeartbeat 1000 (initial\<lparr>connection := Some \<lparr>open_c = False, sent = []\<rparr>\<rparr>)))
     = [Toast ConnectionLost Error, ConnectionStatusDisconnected, UiReset]
   \<and> ui (run CONFIG [HeartbeatCheckTick 20000, CloseEvent]
        (startHeartbeat 1000 (initial\<lparr>connection := Some \<lparr>open_c = False, sent = []\<rparr>\<rparr>)))
     = [Toast ConnectionLost Error, ConnectionStatusDisconnected, UiReset,
        Toast PeerDisconnected Error, ConnectionStatusDisconnected, UiReset]"
  by (simp add: run_Cons run_Nil step_def heartbeatCheck_def resetConnection_def showToast_def
      startHeartbeat_def stopHeartbeat_def initial_def CONFIG_def)

text \<open>
  C6, amended. While a connection exists, a run of the liveness check tears the session
  down (\<^verbatim>\<open>connection\<close> becomes \<^verbatim>\<open>null\<close>) exactly when more than the heartbeat timeout
  has passed since \<^verbatim>\<open>lastHeartbeat\<close> and the connection reports not open. With a
  connection that reports open, or within the timeout, the check changes nothing. When
  it tears down, it shows the notice once, resets the session and stops the three timers;
  a further run of the check changes nothing, through every later run of events the
  connection stays \<^verbatim>\<open>null\<close>, and no later message or timer tick adds a teardown mark of
  any kind to the page. A close event of the channel that is delivered after the teardown
  does: its handler has no guard, it shows its own error notice and resets the page again.
  Every inbound message, whatever its type, sets \<^verbatim>\<open>lastHeartbeat\<close> to the time of its
  arrival.
\<close>

theorem liveness_check_teardown:
  assumes "connection s = Some c"
  shows "(connection (heartbeatCheck cfg now s) = None
            \<longleftrightarrow> HEARTBEAT_TIMEOUT cfg < now - lastHeartbeat s \<and> \<not> open_c c)
     \<and> (open_c c \<longrightarrow> heartbeatCheck cfg now s = s)
     \<and> (now - lastHeartbeat s \<le> HEARTBEAT_TIMEOUT cfg \<longrightarrow> heartbeatCheck cfg now s = s)
     \<and> (HEARTBEAT_TIMEOUT cfg < now - lastHeartbeat s \<and> \<not> open_c c \<longrightarrow>
           heartbeatCheck cfg now s = resetConnection (showToast ConnectionLost Error s)
         \<and> ui (heartbeatCheck cfg now s)
             = ui s @ [Toast ConnectionLost Error, ConnectionStatusDisconnected, UiReset]
         \<and> receivingFiles (heartbeatCheck cfg now s) = []
         \<and> \<not> heartbeatTimer (heartbeatCheck cfg now s)
         \<and> \<not> heartbeatCheckTimer (heartbeatCheck cfg now s)
         \<and> \<not> transferCheckTimer (heartbeatCheck cfg now s)
         \<and> heartbeatCheck cfg now' (heartbeatCheck cfg now s) = heartbeatCheck cfg now s
         \<and> connection (run cfg evs (heartbeatCheck cfg now s)) = None
         \<and> (CloseEvent \<notin> set evs \<longrightarrow>
              filter teardownMark (ui (run cfg evs (heartbeatCheck cfg now s)))
                = filter teardownMark (ui s)
                  @ [Toast ConnectionLost Error, ConnectionStatusDisconnected, UiReset])
         \<and> ui (step cfg (run cfg evs (heartbeatCheck cfg now s)) CloseEvent)
             = ui (run cfg evs (heartbeatCheck cfg now s))
               @ [Toast PeerDisconnected Error, ConnectionStatusDisconnected, UiReset])
     \<and> lastHeartbeat (handleData t m s) = t"
proof -
  have iff: "connection (heartbeatCheck cfg now s) = None
            \<longleftrightarrow> HEARTBEAT_TIMEOUT cfg < now - lastHeartbeat s \<and> \<not> open_c c"
    using assms by (simp add: heartbeatCheck_def reset_frame)
  have op: "open_c c \<longrightarrow> heartbeatCheck cfg now s = s"
    using assms by (simp add: heartbeatCheck_def)
  have fresh: "now - lastHeartbeat s \<le> HEARTBEAT_TIMEOUT cfg \<longrightarrow> heartbeatCheck cfg now s = s"
    by (simp add: heartbeatCheck_def)
  have down: "HEARTBEAT_TIMEOUT cfg < now - lastHeartbeat s \<and> \<not> open_c c \<longrightarrow>
           heartbeatCheck cfg now s = resetConnection (showToast ConnectionLost Error s)
         \<and> ui (heartbeatCheck cfg now s)
             = ui s @ [Toast ConnectionLost Error, ConnectionStatusDisconnected, UiReset]
         \<and> receivingFiles (heartbeatCheck cfg now s) = []
         \<and> \<not> heartbeatTimer (heartbeatCheck cfg now s)
         \<and> \<not> heartbeatCheckTimer (heartbeatCheck cfg now s)
         \<and> \<not> transferCheckTimer (heartbeatCheck cfg now s)
         \<and> heartbeatCheck cfg now' (heartbeatCheck cfg now s) = heartbeatCheck cfg now s
         \<and> connection (run cfg evs (heartbeatCheck cfg now s)) = None
         \<and> (CloseEvent \<notin> set evs \<longrightarrow>
              filter teardownMark (ui (run cfg evs (heartbeatCheck cfg now s)))
                = filter teardownMark (ui s)
                  @ [Toast ConnectionLost Error, ConnectionStatusDisconnected, UiReset])
         \<and> ui (step cfg (run cfg evs (heartbeatCheck cfg now s)) CloseEvent)
             = ui (run cfg evs (heartbeatCheck cfg now s))
               @ [Toast PeerDisconnected Error, ConnectionStatusDisconnected, UiReset]"
  proof
    assume a: "HEARTBEAT_TIMEOUT cfg < now - lastHeartbeat s \<and> \<not> open_c c"
    let ?s' = "resetConnection (showToast ConnectionLost Error s)"
    have eq: "heartbeatCheck cfg now s = ?s'"
      using assms a by (simp add: heartbeatCheck_def)
    have c': "connection ?s' = None" by (simp add: reset_frame)
    have again: "heartbeatCheck cfg now' ?s' = ?s'"
      using c' by (simp add: heartbeatCheck_def)
    have marks: "filter teardownMark (ui ?s')
                 = filter teardownMark (ui s)
                   @ [Toast ConnectionLost Error, ConnectionStatusDisconnected, UiReset]"
      by (simp add: reset_frame showToast_def teardownMark_def)
    note later = run_torn_down[OF c', of cfg evs]
    have close: "ui (step cfg (run cfg evs ?s') CloseEvent)
                 = ui (run cfg evs ?s')
                   @ [Toast PeerDisconnected Error, ConnectionStatusDisconnected, UiReset]"
      by (simp add: step_def reset_frame showToast_def)
    show "heartbeatCheck cfg now s = resetConnection (showToast ConnectionLost Error s)
         \<and> ui (heartbeatCheck cfg now s)
             = ui s @ [Toast ConnectionLost Error, ConnectionStatusDisconnected, UiReset]
         \<and> receivingFiles (heartbeatCheck cfg now s) = []
         \<and> \<not> heartbeatTimer (heartbeatCheck cfg now s)
         \<and> \<not> heartbeatCheckTimer (heartbeatCheck cfg now s)
         \<and> \<not> transferCheckTimer (heartbeatCheck cfg now s)
         \<and> heartbeatCheck cfg now' (heartbeatCheck cfg now s) = heartbeatCheck cfg now s
         \<and> connection (run cfg evs (heartbeatCheck cfg now s)) = None
         \<and> (CloseEvent \<notin> set evs \<longrightarrow>
              filter teardownMark (ui (run cfg evs (heartbeatCheck cfg now s)))
                = filter teardownMark (ui s)
                  @ [Toast ConnectionLost Error, ConnectionStatusDisconnected, UiReset])
         \<and> ui (step cfg (run cfg evs (heartbeatCheck cfg now s)) CloseEvent)
             = ui (run cfg evs (heartbeatCheck cfg now s))
               @ [Toast PeerDisconnected Error, ConnectionStatusDisconnected, UiReset]"
      unfolding eq using again later marks close by (simp add: reset_frame showToast_def)
  qed
  have refresh: "lastHeartbeat (handleData t m s) = t" by (rule handleData_session)
  from iff op fresh down refresh show ?thesis by (intro conjI)
qed

text \<open>
  Instances: a session started at time 1000 whose connection reports closed is torn down
  by the check at 20000 and not by the check at 10000; the same session with a connection
  that reports open is left alone at 20000.
\<close>

theorem liveness_check_teardown_witness:
  "connection (startHeartbeat 1000 (initial\<lparr>connection := Some \<lparr>open_c = False, sent = []\<rparr>\<rparr>))
     = Some \<lparr>open_c = False, sent = []\<rparr>
   \<and> connection (heartbeatCheck CONFIG 20000
        (startHeartbeat 1000 (initial\<lparr>connection := Some \<lparr>open_c = False, sent = []\<rparr>\<rparr>))) = None
   \<and> filter teardownMark
        (ui (run CONFIG [HeartbeatCheckTick 25000, Data 26000 (Heartbeat 1), HeartbeatCheckTick 30000]
        (heartbeatCheck CONFIG 20000
          (startHeartbeat 1000 (initial\<lparr>connection := Some \<lparr>open_c = False, sent = []\<rparr>\<rparr>)))))
     = [Toast ConnectionLost Error, ConnectionStatusDisconnected, UiReset]
   \<and> heartbeatCheck CONFIG 10000
        (startHeartbeat 1000 (initial\<lparr>connection := Some \<lparr>open_c = False, sent = []\<rparr>\<rparr>))
     = (startHeartbeat 1000 (initial\<lparr>connection := Some \<lparr>open_c = False, sent = []\<rparr>\<rparr>))
   \<and> heartbeatCheck CONFIG 20000
        (startHeartbeat 1000 (initial\<lparr>connection := Some \<lparr>open_c = True, sent = []\<rparr>\<rparr>))
     = (startHeartbeat 1000 (initial\<lparr>connection := Some \<lparr>open_c = True, sent = []\<rparr>\<rparr>))
   \<and> lastHeartbeat (handleData 7 (Unknown ''ping'')
        (startHeartbeat 1000 (initial\<lparr>connection := Some \<lparr>open_c = False, sent = []\<rparr>\<rparr>))) = 7"
proof -
  let ?c1 = "\<lparr>open_c = False, sent = []\<rparr>"
  let ?c2 = "\<lparr>open_c = True, sent = []\<rparr>"
  let ?s1 = "(startHeartbeat 1000 (initial\<lparr>connection := Some \<lparr>open_c = False, sent = []\<rparr>\<rparr>))"
  let ?s2 = "(startHeartbeat 1000 (initial\<lparr>connection := Some \<lparr>open_c = True, sent = []\<rparr>\<rparr>))"
  let ?evs = "[HeartbeatCheckTick 25000, Data 26000 (Heartbeat 1), HeartbeatCheckTick 30000]"
  have h1: "connection ?s1 = Some ?c1" by (simp add: startHeartbeat_def stopHeartbeat_def)
  have h2: "connection ?s2 = Some ?c2" by (simp add: startHeartbeat_def stopHeartbeat_def)
  have l1: "lastHeartbeat ?s1 = 1000" by (simp add: startHeartbeat_def stopHeartbeat_def)
  have u1: "ui ?s1 = []" by (simp add: startHeartbeat_def stopHeartbeat_def initial_def)
  have late: "HEARTBEAT_TIMEOUT CONFIG < 20000 - lastHeartbeat ?s1 \<and> \<not> open_c ?c1"
    unfolding l1 by (simp add: CONFIG_def)
  have early: "10000 - lastHeartbeat ?s1 \<le> HEARTBEAT_TIMEOUT CONFIG"
    unfolding l1 by (simp add: CONFIG_def)
  have op: "open_c ?c2" by simp
  have nc: "CloseEvent \<notin> set ?evs" by simp
  note A = liveness_check_teardown[OF h1, of CONFIG 20000 30000 ?evs 7 "Unknown ''ping''"]
  note B = liveness_check_teardown[OF h1, of CONFIG 10000 30000 "[]" 7 "Unknown ''ping''"]
  note C = liveness_check_teardown[OF h2, of CONFIG 20000 30000 "[]" 7 "Unknown ''ping''"]
  from A late have a1: "connection (heartbeatCheck CONFIG 20000 ?s1) = None" by blast
  from A late nc have "filter teardownMark (ui (run CONFIG ?evs (heartbeatCheck CONFIG 20000 ?s1)))
          = filter teardownMark (ui ?s1)
            @ [Toast ConnectionLost Error, ConnectionStatusDisconnected, UiReset]"
    by blast
  then have a2: "filter teardownMark (ui (run CONFIG ?evs (heartbeatCheck CONFIG 20000 ?s1)))
          = [Toast ConnectionLost Error, ConnectionStatusDisconnected, UiReset]"
    unfolding u1 by simp
  from A have a3: "lastHeartbeat (handleData 7 (Unknown ''ping'') ?s1) = 7" by blast
  from B early have b: "heartbeatCheck CONFIG 10000 ?s1 = ?s1" by blast
  from C op have c: "heartbeatCheck CONFIG 20000 ?s2 = ?s2" by blast
  from h1 a1 a2 b c a3 show ?thesis by (intro conjI)
qed

subsection \<open>The send commands\<close>

text \<open>
  C8. When \<^verbatim>\<open>handleFiles\<close>, the send-file command, is invoked while there is no
  connection or the connection does not report open, it returns after showing the error
  notice \<open>ConnectFirst\<close>: nothing is handed to the channel (the connection and its list
  of sent messages are as before), no file item is created in the page for any of the
  files, and no other transfer state changes.
\<close>

theorem handleFiles_rejects_without_open_channel:
  assumes "connection s = None \<or> (\<exists>c. connection s = Some c \<and> \<not> open_c c)"
  shows "handleFiles cfg files s = Some (showToast ConnectFirst Error s)
       \<and> connection (showToast ConnectFirst Error s) = connection s
       \<and> ui (showToast ConnectFirst Error s) = ui s @ [Toast ConnectFirst Error]
       \<and> receivingFiles (showToast ConnectFirst Error s) = receivingFiles s
       \<and> completedFiles (showToast ConnectFirst Error s) = completedFiles s"
  using assms by (auto simp add: handleFiles_def showToast_def)

text \<open>
  Instances: no connection at all, and a connection that reports closed.
\<close>

theorem handleFiles_rejects_without_open_channel_witness:
  "handleFiles CONFIG [(''file_1'', \<lparr>name_f = ''a'', type_f = ''t'', content = [1, 2, 3]\<rparr>)] initial
     = Some (initial\<lparr>ui := [Toast ConnectFirst Error]\<rparr>)
   \<and> handleFiles CONFIG [(''file_1'', \<lparr>name_f = ''a'', type_f = ''t'', content = [1, 2, 3]\<rparr>)]
       (initial\<lparr>connection := Some \<lparr>open_c = False, sent = []\<rparr>\<rparr>)
     = Some (initial\<lparr>connection := Some \<lparr>open_c = False, sent = []\<rparr>,
                     ui := [Toast ConnectFirst Error]\<rparr>)"
proof -
  let ?fs = "[(''file_1'', \<lparr>name_f = ''a'', type_f = ''t'', content = [1, 2, 3::byte]\<rparr>)]"
  let ?s2 = "initial\<lparr>connection := Some \<lparr>open_c = False, sent = []\<rparr>\<rparr>"
  have h1: "connection initial = None \<or> (\<exists>c. connection initial = Some c \<and> \<not> open_c c)"
    by (simp add: initial_def)
  have h2: "connection ?s2 = None \<or> (\<exists>c. connection ?s2 = Some c \<and> \<not> open_c c)"
    by simp
  from handleFiles_rejects_without_open_channel[OF h1, of CONFIG ?fs]
    handleFiles_rejects_without_open_channel[OF h2, of CONFIG ?fs]
  show ?thesis by (simp add: showToast_def initial_def)
qed

lemma dropWhile_all: "(\<forall>x \<in> set (dropWhile P t). P x) \<longleftrightarrow> (\<forall>x \<in> set t. P x)"
  by (induction t) auto

lemma trim_empty_iff: "trim t = [] \<longleftrightarrow> (\<forall>c \<in> set t. isWhiteSpace c)"
  by (simp add: trim_def dropWhile_eq_Nil_conv dropWhile_all)

text \<open>
  C9, as stated, fails in its second half: the message does not carry the content as
  entered. For the input of a space followed by the letter a, with an open channel, the
  message sent carries the single letter a.
\<close>

theorem whitespace_trim_counterexample:
  "connection (sendText 7
      (initial\<lparr>connection := Some \<lparr>open_c = True, sent = []\<rparr>, textInput := [0x20, 0x61]\<rparr>))
     = Some \<lparr>open_c = True, sent = [Text [0x61] 7]\<rparr>
   \<and> connection (sendText 7
      (initial\<lparr>connection := Some \<lparr>open_c = True, sent = []\<rparr>, textInput := [0x20, 0x61]\<rparr>))
     \<noteq> Some \<lparr>open_c = True, sent = [Text [0x20, 0x61] 7]\<rparr>"
  by (simp add: sendText_def trim_def isWhiteSpace_def showToast_def initial_def)

text \<open>
  C9, amended. When the content is empty or consists of white space only, \<^verbatim>\<open>sendText\<close>
  shows the error notice \<open>EnterText\<close> and hands nothing to the channel. When the content
  has a character that is not white space and the connection reports open, exactly one
  message is handed to the channel, a text message carrying the content with leading and
  trailing white space removed and the current time; the success notice is shown and the
  input is cleared.
\<close>

theorem sendText_rejects_blank_sends_trimmed:
  "((\<forall>ch \<in> set (textInput s). isWhiteSpace ch) \<longrightarrow>
       sendText now s = showToast EnterText Error s
     \<and> connection (sendText now s) = connection s
     \<and> ui (sendText now s) = ui s @ [Toast EnterText Error])
   \<and> ((\<exists>ch \<in> set (textInput s). \<not> isWhiteSpace ch) \<and> connection s = Some c \<and> open_c c \<longrightarrow>
       connection (sendText now s) = Some (c\<lparr>sent := sent c @ [Text (trim (textInput s)) now]\<rparr>)
     \<and> ui (sendText now s) = ui s @ [Toast TextSent Success]
     \<and> textInput (sendText now s) = [])"
proof (intro conjI impI)
  assume "\<forall>ch \<in> set (textInput s). isWhiteSpace ch"
  then have e: "trim (textInput s) = []" by (simp add: trim_empty_iff)
  show "sendText now s = showToast EnterText Error s" using e by (simp add: sendText_def)
  then show "connection (sendText now s) = connection s"
    and "ui (sendText now s) = ui s @ [Toast EnterText Error]"
    by (simp_all add: showToast_def)
next
  assume a: "(\<exists>ch \<in> set (textInput s). \<not> isWhiteSpace ch) \<and> connection s = Some c \<and> open_c c"
  then have ne: "trim (textInput s) \<noteq> []" by (simp add: trim_empty_iff)
  have eq: "sendText now s = showToast TextSent Success
              (s\<lparr>connection := Some (c\<lparr>sent := sent c @ [Text (trim (textInput s)) now]\<rparr>),
                 textInput := []\<rparr>)"
    using a ne by (simp add: sendText_def Let_def)
  show "connection (sendText now s) = Some (c\<lparr>sent := sent c @ [Text (trim (textInput s)) now]\<rparr>)"
    and "ui (sendText now s) = ui s @ [Toast TextSent Success]"
    and "textInput (sendText now s) = []"
    unfolding eq by (simp_all add: showToast_def)
qed


text \<open>
  Instances: a space and a tab; the empty input; and the input \<^verbatim>\<open>" a b\\n"\<close>, sent as
  \<^verbatim>\<open>"a b"\<close>.
\<close>

theorem sendText_rejects_blank_sends_trimmed_witness:
  "sendText 7 (initial\<lparr>connection := Some \<lparr>open_c = True, sent = []\<rparr>, textInput := [0x20, 0x09]\<rparr>)
     = initial\<lparr>connection := Some \<lparr>open_c = True, sent = []\<rparr>, textInput := [0x20, 0x09],
               ui := [Toast EnterText Error]\<rparr>
   \<and> sendText 7 (initial\<lparr>connection := Some \<lparr>open_c = True, sent = []\<rparr>, textInput := []\<rparr>)
     = initial\<lparr>connection := Some \<lparr>open_c = True, sent = []\<rparr>, ui := [Toast EnterText Error]\<rparr>
   \<and> connection (sendText 7
        (initial\<lparr>connection := Some \<lparr>open_c = True, sent = []\<rparr>,
                 textInput := [0x20, 0x61, 0x20, 0x62, 0x0A]\<rparr>))
     = Some \<lparr>open_c = True, sent = [Text [0x61, 0x20, 0x62] 7]\<rparr>
   \<and> ui (sendText 7
        (initial\<lparr>connection := Some \<lparr>open_c = True, sent = []\<rparr>,
                 textInput := [0x20, 0x61, 0x20, 0x62, 0x0A]\<rparr>))
     = [Toast TextSent Success]"
proof -
  let ?c = "\<lparr>open_c = True, sent = []\<rparr>"
  let ?s1 = "initial\<lparr>connection := Some ?c, textInput := [0x20, 0x09]\<rparr>"
  let ?s2 = "initial\<lparr>connection := Some ?c, textInput := []\<rparr>"
  let ?s3 = "initial\<lparr>connection := Some ?c, textInput := [0x20, 0x61, 0x20, 0x62, 0x0A]\<rparr>"
  have b1: "\<forall>ch \<in> set (textInput ?s1). isWhiteSpace ch" by (simp add: isWhiteSpace_def)
  have b2: "\<forall>ch \<in> set (textInput ?s2). isWhiteSpace ch" by simp
  have n3: "(\<exists>ch \<in> set (textInput ?s3). \<not> isWhiteSpace ch) \<and> connection ?s3 = Some ?c \<and> open_c ?c"
    by (simp add: isWhiteSpace_def)
  have t3: "trim (textInput ?s3) = [0x61, 0x20, 0x62]"
    by (simp add: trim_def isWhiteSpace_def)
  from sendText_rejects_blank_sends_trimmed[of ?s1 7 ?c] b1
  have r1: "sendText 7 ?s1 = showToast EnterText Error ?s1" by blast
  from sendText_rejects_blank_sends_trimmed[of ?s2 7 ?c] b2
  have r2: "sendText 7 ?s2 = showToast EnterText Error ?s2" by blast
  from sendText_rejects_blank_sends_trimmed[of ?s3 7 ?c] n3
  have r3: "connection (sendText 7 ?s3) = Some (?c\<lparr>sent := sent ?c @ [Text (trim (textInput ?s3)) 7]\<rparr>)"
    and r4: "ui (sendText 7 ?s3) = ui ?s3 @ [Toast TextSent Success]"
    by blast+
  from r1 have c1: "sendText 7 ?s1 = initial\<lparr>connection := Some ?c, textInput := [0x20, 0x09],
               ui := [Toast EnterText Error]\<rparr>"
    by (simp add: showToast_def initial_def)
  from r2 have c2: "sendText 7 ?s2 = initial\<lparr>connection := Some ?c, ui := [Toast EnterText Error]\<rparr>"
    by (simp add: showToast_def initial_def)
  from r3 t3 have c3: "connection (sendText 7 ?s3) = Some \<lparr>open_c = True, sent = [Text [0x61, 0x20, 0x62] 7]\<rparr>"
    by simp
  from r4 have c4: "ui (sendText 7 ?s3) = [Toast TextSent Success]"
    by (simp add: initial_def)
  from c1 c2 c3 c4 show ?thesis by (intro conjI)
qed

subsection \<open>Progress\<close>

lemma chunkEvents_snoc:
  "chunkEvents fid (cl @ [(t, i, d)]) = chunkEvents fid cl @ [Data t (FileChunk fid i d)]"
  by (simp add: chunkEvents_def)

lemma byteCount_snoc: "byteCount (cl @ [(t, i, d)]) = byteCount cl + length d"
  by (simp add: byteCount_def)

lemma byteCount_take_mono: "i \<le> j \<Longrightarrow> byteCount (take i cl) \<le> byteCount (take j cl)"
proof -
  assume "i \<le> j"
  then have "take j cl = take i cl @ take (j - i) (drop i cl)"
    by (metis le_add_diff_inverse take_add)
  then show ?thesis by (simp add: byteCount_def)
qed

lemma inbound_progress:
  assumes "map_of (receivingFiles r) fid = Some fd"
  shows "\<exists>fd'. map_of (receivingFiles (run cfg (chunkEvents fid cl) r)) fid = Some fd'
           \<and> meta fd' = meta fd
           \<and> receivedSize fd' = receivedSize fd + byteCount cl
           \<and> ui (run cfg (chunkEvents fid cl) r)
               = ui r @ map (\<lambda>k. Progress fid (percent (receivedSize fd + byteCount (take (Suc k) cl))
                                                (size_m (meta fd)))) [0..<length cl]"
proof (induction cl rule: rev_induct)
  case Nil
  show ?case using assms by (simp add: chunkEvents_def run_Nil byteCount_def)
next
  case (snoc x cl)
  obtain t i d where x: "x = (t, i, d)" by (cases x) auto
  let ?r1 = "run cfg (chunkEvents fid cl) r"
  from snoc obtain fd' where fd': "map_of (receivingFiles ?r1) fid = Some fd'"
    "meta fd' = meta fd" "receivedSize fd' = receivedSize fd + byteCount cl"
    "ui ?r1 = ui r @ map (\<lambda>k. Progress fid (percent (receivedSize fd + byteCount (take (Suc k) cl))
                                                (size_m (meta fd)))) [0..<length cl]"
    by auto
  have run: "run cfg (chunkEvents fid (cl @ [x])) r = handleData t (FileChunk fid i d) ?r1"
    by (simp add: x chunkEvents_snoc run_append run_Cons run_Nil step_def)
  have old: "map (\<lambda>k. Progress fid (percent (receivedSize fd + byteCount (take (Suc k) (cl @ [x])))
                                                (size_m (meta fd)))) [0..<length cl]
           = map (\<lambda>k. Progress fid (percent (receivedSize fd + byteCount (take (Suc k) cl))
                                                (size_m (meta fd)))) [0..<length cl]"
    by (rule map_cong) simp_all
  show ?case
    unfolding run handleData_chunk[OF lookupFile_own[OF fd'(1)]]
    by (simp add: setFile_def update_conv' fd' old x byteCount_snoc add.assoc)
qed

lemma js_le_percent: "0 < sz \<Longrightarrow> a \<le> b \<Longrightarrow> js_le (percent a sz) (percent b sz)"
  by (simp add: percent_def divide_right_mono)

lemma percent_100: "0 < sz \<Longrightarrow> percent a sz = Num 100 \<longleftrightarrow> a = sz"
proof -
  assume sz: "0 < sz"
  then have nz: "rat_of_nat sz \<noteq> 0" by simp
  have "(rat_of_nat a / rat_of_nat sz * 100 = 100) \<longleftrightarrow> (rat_of_nat a = rat_of_nat sz)"
    using nz by (simp add: field_simps)
  also have "\<dots> \<longleftrightarrow> a = sz" by (simp only: of_nat_eq_iff)
  finally have e: "(rat_of_nat a / rat_of_nat sz * 100 = 100) \<longleftrightarrow> a = sz" .
  from sz have "percent a sz = Num (rat_of_nat a / rat_of_nat sz * 100)"
    by (simp add: percent_def)
  then show ?thesis by (simp only: jsnum.inject e)
qed


lemma progressOf_append: "progressOf fid (es @ es') = progressOf fid es @ progressOf fid es'"
  by (induction fid es rule: progressOf.induct) simp_all

lemma progressOf_map: "progressOf fid (map (\<lambda>k. Progress fid (p k)) ks) = map p ks"
  by (induction ks) simp_all

lemma sorted_percent:
  assumes "0 < sz" and "\<And>i j. i \<le> j \<Longrightarrow> h i \<le> (h j :: nat)"
  shows "sorted_wrt js_le (map (\<lambda>k. percent (h k) sz) [0..<n])"
  unfolding sorted_wrt_iff_nth_less
  using assms by (auto intro!: js_le_percent)

lemma outbound_progress:
  assumes "0 < CHUNK_SIZE cfg" and "connection s = Some c"
  shows "\<exists>s'. sendFile cfg fid f s = Some (Inr s')
           \<and> progressOf fid (drop (length (ui s)) (ui s'))
               = map (\<lambda>k. percent (Suc k) ((size_f f + CHUNK_SIZE cfg - 1) div CHUNK_SIZE cfg))
                   [0..<(size_f f + CHUNK_SIZE cfg - 1) div CHUNK_SIZE cfg]"
  by (rule exI, rule conjI, rule sendFile_run[OF assms, of fid f])
    (simp add: progressOf_append progressOf_map)

lemma outbound_sorted: "sorted_wrt js_le (map (\<lambda>k. percent (Suc k) n) [0..<n])"
proof (cases "0 < n")
  case True
  then show ?thesis by (intro sorted_percent) simp_all
next
  case False
  then show ?thesis by simp
qed

lemma outbound_hundred: "\<forall>k<n. percent (Suc k) n = Num 100 \<longleftrightarrow> Suc k = n"
  by (auto simp add: percent_100)

lemma inbound_progress_sorted:
  assumes "map_of (receivingFiles r) fid = Some fd" and "0 < size_m (meta fd)"
  shows "progressOf fid (drop (length (ui r)) (ui (run cfg (chunkEvents fid cl) r)))
           = map (\<lambda>k. percent (receivedSize fd + byteCount (take (Suc k) cl)) (size_m (meta fd)))
               [0..<length cl]
       \<and> sorted_wrt js_le
           (percent (receivedSize fd) (size_m (meta fd)) #
            map (\<lambda>k. percent (receivedSize fd + byteCount (take (Suc k) cl)) (size_m (meta fd)))
              [0..<length cl])
       \<and> (\<forall>k<length cl.
             percent (receivedSize fd + byteCount (take (Suc k) cl)) (size_m (meta fd)) = Num 100
               \<longleftrightarrow> receivedSize fd + byteCount (take (Suc k) cl) = size_m (meta fd))"
proof -
  from inbound_progress[OF assms(1), of cfg cl]
  have ui: "ui (run cfg (chunkEvents fid cl) r)
               = ui r @ map (\<lambda>k. Progress fid (percent (receivedSize fd + byteCount (take (Suc k) cl))
                                                (size_m (meta fd)))) [0..<length cl]"
    by auto
  have p: "progressOf fid (drop (length (ui r)) (ui (run cfg (chunkEvents fid cl) r)))
           = map (\<lambda>k. percent (receivedSize fd + byteCount (take (Suc k) cl)) (size_m (meta fd)))
               [0..<length cl]"
    unfolding ui by (simp add: progressOf_map)
  have s1: "sorted_wrt js_le
            (map (\<lambda>k. percent (receivedSize fd + byteCount (take (Suc k) cl)) (size_m (meta fd)))
              [0..<length cl])"
    by (rule sorted_percent[OF assms(2)]) (simp add: byteCount_take_mono)
  have s0: "\<forall>x \<in> set (map (\<lambda>k. percent (receivedSize fd + byteCount (take (Suc k) cl)) (size_m (meta fd)))
              [0..<length cl]). js_le (percent (receivedSize fd) (size_m (meta fd))) x"
    using assms(2) by (auto intro!: js_le_percent)
  have h: "\<forall>k<length cl.
             percent (receivedSize fd + byteCount (take (Suc k) cl)) (size_m (meta fd)) = Num 100
               \<longleftrightarrow> receivedSize fd + byteCount (take (Suc k) cl) = size_m (meta fd)"
    using assms(2) by (simp add: percent_100)
  from p s0 s1 h show ?thesis by simp
qed


lemma byteCount_in_order:
  assumes "length ts = n" and "k < n"
  shows "byteCount (take (Suc k) (map (\<lambda>(t, j). (t, j, take cs (drop (j * cs) b))) (zip ts [0..<n])))
           = min (Suc k * cs) (length b)"
proof -
  let ?g = "\<lambda>j. take cs (drop (j * cs) b)"
  have tk: "take (Suc k) [0..<n] = [0..<Suc k]" using assms(2) by (simp add: take_upt)
  have lt: "length (take (Suc k) ts) = length [0..<Suc k]" using assms by simp
  have "byteCount (take (Suc k) (map (\<lambda>(t, j). (t, j, ?g j)) (zip ts [0..<n])))
      = sum_list (map (\<lambda>(t, j). length (?g j)) (zip (take (Suc k) ts) [0..<Suc k]))"
    by (simp add: byteCount_def take_map take_zip tk comp_def case_prod_unfold)
  also have "\<dots> = sum_list (map (\<lambda>j. length (?g j)) (map snd (zip (take (Suc k) ts) [0..<Suc k])))"
    by (simp add: comp_def case_prod_unfold)
  also have "\<dots> = sum_list (map (\<lambda>j. length (?g j)) [0..<Suc k])"
    using lt by (simp only: map_snd_zip)
  also have "\<dots> = length (concat (map ?g [0..<Suc k]))"
    by (simp add: length_concat comp_def)
  also have "\<dots> = min (Suc k * cs) (length b)"
    by (simp only: concat_chunks length_take min.commute)
  finally show ?thesis .
qed

lemma in_order_progress:
  assumes "0 < cs" and "map_of (receivingFiles r) fid = Some fd"
    and "receivedSize fd = 0" and "size_m (meta fd) = length b"
    and "length ts = (length b + cs - 1) div cs"
  shows "progressOf fid (drop (length (ui r))
           (ui (run cfg (map2 Data ts (map (\<lambda>j. FileChunk fid j (take cs (drop (j * cs) b)))
                  [0..<(length b + cs - 1) div cs])) r)))
           = map (\<lambda>k. percent (min (Suc k * cs) (length b)) (length b))
               [0..<(length b + cs - 1) div cs]
       \<and> (\<forall>k<(length b + cs - 1) div cs.
             percent (min (Suc k * cs) (length b)) (length b) = Num 100
               \<longleftrightarrow> Suc k = (length b + cs - 1) div cs)"
proof -
  let ?n = "(length b + cs - 1) div cs"
  let ?g = "\<lambda>j. take cs (drop (j * cs) b)"
  let ?cl = "map (\<lambda>(t, j). (t, j, ?g j)) (zip ts [0..<?n])"
  have ev: "chunkEvents fid ?cl = map2 Data ts (map (\<lambda>j. FileChunk fid j (?g j)) [0..<?n])"
    by (simp add: chunkEvents_def zip_map2 comp_def case_prod_unfold)
  have len: "length ?cl = ?n" using assms(5) by simp
  have up: "?n * cs < length b + cs" and lo: "length b \<le> ?n * cs"
    using ceil_bounds[OF assms(1), of "length b"] by simp_all
  have hundred: "\<forall>k<?n. percent (min (Suc k * cs) (length b)) (length b) = Num 100
               \<longleftrightarrow> Suc k = ?n"
  proof (intro allI impI)
    fix k assume k: "k < ?n"
    then have "Suc k * cs \<le> ?n * cs" by (intro mult_le_mono1) simp
    with up have pos: "0 < length b" using assms(1) by (cases "length b") auto
    show "percent (min (Suc k * cs) (length b)) (length b) = Num 100 \<longleftrightarrow> Suc k = ?n"
    proof (cases "Suc k = ?n")
      case True
      with lo have "min (Suc k * cs) (length b) = length b" by simp
      with True pos show ?thesis by (simp add: percent_100)
    next
      case False
      with k have "Suc (Suc k) \<le> ?n" by simp
      then have "Suc (Suc k) * cs \<le> ?n * cs" by (intro mult_le_mono1)
      with up have "Suc k * cs < length b" by simp
      then have "min (Suc k * cs) (length b) \<noteq> length b" by simp
      with False pos show ?thesis by (simp add: percent_100)
    qed
  qed
  have vals: "map (\<lambda>k. percent (receivedSize fd + byteCount (take (Suc k) ?cl)) (size_m (meta fd)))
               [0..<length ?cl]
            = map (\<lambda>k. percent (min (Suc k * cs) (length b)) (length b)) [0..<?n]"
    unfolding len
  proof (rule map_cong)
    fix k assume "k \<in> set [0..<?n]"
    then have k: "k < ?n" by simp
    show "percent (receivedSize fd + byteCount (take (Suc k) ?cl)) (size_m (meta fd))
            = percent (min (Suc k * cs) (length b)) (length b)"
      unfolding byteCount_in_order[OF assms(5) k] assms(3,4) by simp
  qed simp
  from inbound_progress[OF assms(2), of cfg ?cl]
  have ui: "ui (run cfg (chunkEvents fid ?cl) r)
               = ui r @ map (\<lambda>k. Progress fid (percent (receivedSize fd + byteCount (take (Suc k) ?cl))
                                                (size_m (meta fd)))) [0..<length ?cl]"
    by auto
  have "progressOf fid (drop (length (ui r)) (ui (run cfg (chunkEvents fid ?cl) r)))
          = map (\<lambda>k. percent (min (Suc k * cs) (length b)) (length b)) [0..<?n]"
    unfolding ui by (simp only: append_eq_conv_conj drop_append diff_self_eq_0 drop_0 drop_all
        order_refl append_Nil progressOf_map vals)
  with hundred show ?thesis unfolding ev by simp
qed


text \<open>
  C4, as stated, fails in its second half. A transfer is announced with two chunks and
  four bytes; chunk 0 arrives twice, then chunk 1. The progress values exposed are 50, 100
  and 150 percent. When 100 percent is exposed, slot 1 is still unset, the transfer is
  still in \<^verbatim>\<open>receivingFiles\<close> and nothing has been completed; and the progress goes on
  beyond 100 percent.
\<close>

theorem progress_counterexample:
  "progressOf ''x'' (ui (run CONFIG
      [Data 1 (FileMeta \<lparr>fileId = ''x'', name = ''a'', size_m = 4, fileType = ''t'', totalChunks = 2\<rparr>),
       Data 2 (FileChunk ''x'' 0 [1, 2]),
       Data 3 (FileChunk ''x'' 0 [1, 2]),
       Data 4 (FileChunk ''x'' 1 [3, 4])] initial))
     = [Num 50, Num 100, Num 150]
   \<and> map_of (receivingFiles (run CONFIG
      [Data 1 (FileMeta \<lparr>fileId = ''x'', name = ''a'', size_m = 4, fileType = ''t'', totalChunks = 2\<rparr>),
       Data 2 (FileChunk ''x'' 0 [1, 2]),
       Data 3 (FileChunk ''x'' 0 [1, 2])] initial)) ''x''
     = Some \<lparr>meta = \<lparr>fileId = ''x'', name = ''a'', size_m = 4, fileType = ''t'', totalChunks = 2\<rparr>,
             chunks = [Some [1, 2], None], receivedSize = 4, lastUpdate = 3\<rparr>
   \<and> progressOf ''x'' (ui (run CONFIG
      [Data 1 (FileMeta \<lparr>fileId = ''x'', name = ''a'', size_m = 4, fileType = ''t'', totalChunks = 2\<rparr>),
       Data 2 (FileChunk ''x'' 0 [1, 2]),
       Data 3 (FileChunk ''x'' 0 [1, 2])] initial))
     = [Num 50, Num 100]
   \<and> completedFiles (run CONFIG
      [Data 1 (FileMeta \<lparr>fileId = ''x'', name = ''a'', size_m = 4, fileType = ''t'', totalChunks = 2\<rparr>),
       Data 2 (FileChunk ''x'' 0 [1, 2]),
       Data 3 (FileChunk ''x'' 0 [1, 2])] initial) ''x''
     = None"
  by (simp add: steps_eval run_Nil receive_defs initial_def replicate_numeral)

text \<open>
  C4, amended. Outbound: \<^verbatim>\<open>sendFile\<close> exposes after chunk \<open>k\<close> (counted from 1) the
  progress \<open>k / n * 100\<close>; the values never decrease, and the value is 100 exactly at the
  last chunk, which is before the completion message is sent. When the chunk messages of
  that file arrive in order, each once, at a receiver that has just recorded its meta
  message, the receiver exposes the received bytes over the size, and 100 exactly at the
  last chunk. Inbound in general, for an active transfer of declared size above zero and
  any sequence of arriving chunk messages for it: after each message the progress is the
  byte counter over the declared size, times 100; the values never decrease, starting
  from the current one; and a value is 100 exactly when the byte counter equals the
  declared size (which repeated chunks can bring about, or exceed, before every slot is
  filled and before any completion message).
\<close>

theorem progress_monotone_full_at_last_chunk:
  assumes "0 < CHUNK_SIZE cfg" and "connection s = Some c"
    and "map_of (receivingFiles r) rid = Some fd" and "0 < size_m (meta fd)"
  shows "(\<exists>n s'. totalChunksOf (size_f f) (CHUNK_SIZE cfg) = Some n
           \<and> sendFile cfg fid f s = Some (Inr s')
           \<and> progressOf fid (drop (length (ui s)) (ui s')) = map (\<lambda>k. percent (Suc k) n) [0..<n]
           \<and> sorted_wrt js_le (map (\<lambda>k. percent (Suc k) n) [0..<n])
           \<and> (\<forall>k<n. percent (Suc k) n = Num 100 \<longleftrightarrow> Suc k = n)
           \<and> (\<forall>ts r0 fd0 cfg'.
                 length ts = n \<and> map_of (receivingFiles r0) fid = Some fd0
                 \<and> receivedSize fd0 = 0 \<and> size_m (meta fd0) = size_f f \<longrightarrow>
                 progressOf fid (drop (length (ui r0))
                   (ui (run cfg' (map2 Data ts
                         (map (\<lambda>j. FileChunk fid j
                                 (take (CHUNK_SIZE cfg) (drop (j * CHUNK_SIZE cfg) (content f))))
                            [0..<n])) r0)))
                   = map (\<lambda>k. percent (min (Suc k * CHUNK_SIZE cfg) (size_f f)) (size_f f)) [0..<n]
                 \<and> (\<forall>k<n. percent (min (Suc k * CHUNK_SIZE cfg) (size_f f)) (size_f f) = Num 100
                            \<longleftrightarrow> Suc k = n)))
       \<and> progressOf rid (drop (length (ui r)) (ui (run cfg (chunkEvents rid cl) r)))
           = map (\<lambda>k. percent (receivedSize fd + byteCount (take (Suc k) cl)) (size_m (meta fd)))
               [0..<length cl]
       \<and> sorted_wrt js_le
           (percent (receivedSize fd) (size_m (meta fd)) #
            map (\<lambda>k. percent (receivedSize fd + byteCount (take (Suc k) cl)) (size_m (meta fd)))
              [0..<length cl])
       \<and> (\<forall>k<length cl.
             percent (receivedSize fd + byteCount (take (Suc k) cl)) (size_m (meta fd)) = Num 100
               \<longleftrightarrow> receivedSize fd + byteCount (take (Suc k) cl) = size_m (meta fd))"
proof -
  let ?cs = "CHUNK_SIZE cfg"
  let ?n = "(size_f f + ?cs - 1) div ?cs"
  have tc: "totalChunksOf (size_f f) ?cs = Some ?n"
    using assms(1) by (simp add: totalChunksOf_def)
  from outbound_progress[OF assms(1,2), of fid f]
  obtain s' where s': "sendFile cfg fid f s = Some (Inr s')"
    "progressOf fid (drop (length (ui s)) (ui s')) = map (\<lambda>k. percent (Suc k) ?n) [0..<?n]"
    by (elim exE conjE)
  have honest: "\<forall>ts r0 fd0 cfg'.
                 length ts = ?n \<and> map_of (receivingFiles r0) fid = Some fd0
                 \<and> receivedSize fd0 = 0 \<and> size_m (meta fd0) = size_f f \<longrightarrow>
                 progressOf fid (drop (length (ui r0))
                   (ui (run cfg' (map2 Data ts
                         (map (\<lambda>j. FileChunk fid j (take ?cs (drop (j * ?cs) (content f))))
                            [0..<?n])) r0)))
                   = map (\<lambda>k. percent (min (Suc k * ?cs) (size_f f)) (size_f f)) [0..<?n]
                 \<and> (\<forall>k<?n. percent (min (Suc k * ?cs) (size_f f)) (size_f f) = Num 100
                            \<longleftrightarrow> Suc k = ?n)"
  proof (intro allI impI)
    fix ts :: "nat list" and r0 :: state and fd0 :: fileData and cfg' :: config
    assume a: "length ts = ?n \<and> map_of (receivingFiles r0) fid = Some fd0
                 \<and> receivedSize fd0 = 0 \<and> size_m (meta fd0) = size_f f"
    then have a1: "map_of (receivingFiles r0) fid = Some fd0" and a2: "receivedSize fd0 = 0"
      and a3: "size_m (meta fd0) = length (content f)"
      and a4: "length ts = (length (content f) + ?cs - 1) div ?cs"
      by (simp_all add: size_f_def)
    note io = in_order_progress[OF assms(1) a1 a2 a3 a4, of cfg']
    show "progressOf fid (drop (length (ui r0))
                   (ui (run cfg' (map2 Data ts
                         (map (\<lambda>j. FileChunk fid j (take ?cs (drop (j * ?cs) (content f))))
                            [0..<?n])) r0)))
                   = map (\<lambda>k. percent (min (Suc k * ?cs) (size_f f)) (size_f f)) [0..<?n]
                 \<and> (\<forall>k<?n. percent (min (Suc k * ?cs) (size_f f)) (size_f f) = Num 100
                            \<longleftrightarrow> Suc k = ?n)"
      unfolding size_f_def by (rule io)
  qed
  have out: "\<exists>n s'. totalChunksOf (size_f f) (CHUNK_SIZE cfg) = Some n
           \<and> sendFile cfg fid f s = Some (Inr s')
           \<and> progressOf fid (drop (length (ui s)) (ui s')) = map (\<lambda>k. percent (Suc k) n) [0..<n]
           \<and> sorted_wrt js_le (map (\<lambda>k. percent (Suc k) n) [0..<n])
           \<and> (\<forall>k<n. percent (Suc k) n = Num 100 \<longleftrightarrow> Suc k = n)
           \<and> (\<forall>ts r0 fd0 cfg'.
                 length ts = n \<and> map_of (receivingFiles r0) fid = Some fd0
                 \<and> receivedSize fd0 = 0 \<and> size_m (meta fd0) = size_f f \<longrightarrow>
                 progressOf fid (drop (length (ui r0))
                   (ui (run cfg' (map2 Data ts
                         (map (\<lambda>j. FileChunk fid j
                                 (take (CHUNK_SIZE cfg) (drop (j * CHUNK_SIZE cfg) (content f))))
                            [0..<n])) r0)))
                   = map (\<lambda>k. percent (min (Suc k * CHUNK_SIZE cfg) (size_f f)) (size_f f)) [0..<n]
                 \<and> (\<forall>k<n. percent (min (Suc k * CHUNK_SIZE cfg) (size_f f)) (size_f f) = Num 100
                            \<longleftrightarrow> Suc k = n))"
    apply (rule exI[of _ ?n])
    apply (rule exI[of _ s'])
    apply (intro conjI)
         apply (rule tc)
        apply (rule s'(1))
       apply (rule s'(2))
      apply (rule outbound_sorted)
     apply (rule outbound_hundred)
    apply (rule honest)
    done
  from out inbound_progress_sorted[OF assms(3,4), of cfg cl] show ?thesis
    by (intro conjI) (elim conjE, assumption)+
qed


text \<open>
  Instances: the file of 150000 bytes with chunks of 65536 bytes, sent (33.3, 66.7 and
  100 percent) and received in order (43.69, 87.38 and 100 percent); and the transfer of
  four bytes that receives chunk 0 twice (50, 100 and 150 percent).
\<close>

theorem progress_monotone_full_at_last_chunk_witness:
  "(\<exists>s'. sendFile CONFIG ''x'' \<lparr>name_f = ''a.bin'', type_f = ''bin'', content = replicate 150000 0\<rparr>
           (initial\<lparr>connection := Some \<lparr>open_c = True, sent = []\<rparr>\<rparr>) = Some (Inr s')
        \<and> progressOf ''x'' (drop (length (ui (initial\<lparr>connection := Some \<lparr>open_c = True, sent = []\<rparr>\<rparr>))) (ui s'))
            = [Num (100 / 3), Num (200 / 3), Num 100])
   \<and> progressOf ''x'' (drop (length (ui
         (initial\<lparr>receivingFiles :=
            [(''x'', \<lparr>meta = \<lparr>fileId = ''x'', name = ''a.bin'', size_m = 150000, fileType = ''bin'',
                             totalChunks = 3\<rparr>,
                     chunks = [None, None, None], receivedSize = 0, lastUpdate = 1\<rparr>)]\<rparr>)))
        (ui (run CONFIG
           (map2 Data [2, 3, 4]
              [FileChunk ''x'' 0 (replicate 65536 0), FileChunk ''x'' 1 (replicate 65536 0),
               FileChunk ''x'' 2 (replicate 18928 0)])
         (initial\<lparr>receivingFiles :=
            [(''x'', \<lparr>meta = \<lparr>fileId = ''x'', name = ''a.bin'', size_m = 150000, fileType = ''bin'',
                             totalChunks = 3\<rparr>,
                     chunks = [None, None, None], receivedSize = 0, lastUpdate = 1\<rparr>)]\<rparr>))))
       = [Num (16384 / 375), Num (32768 / 375), Num 100]
   \<and> progressOf ''y'' (drop (length (ui
         (initial\<lparr>receivingFiles :=
            [(''y'', \<lparr>meta = \<lparr>fileId = ''y'', name = ''b'', size_m = 4, fileType = ''t'', totalChunks = 2\<rparr>,
                     chunks = [None, None], receivedSize = 0, lastUpdate = 1\<rparr>)]\<rparr>)))
        (ui (run CONFIG (chunkEvents ''y'' [(2, 0, [1, 2]), (3, 0, [1, 2]), (4, 1, [3, 4])])
         (initial\<lparr>receivingFiles :=
            [(''y'', \<lparr>meta = \<lparr>fileId = ''y'', name = ''b'', size_m = 4, fileType = ''t'', totalChunks = 2\<rparr>,
                     chunks = [None, None], receivedSize = 0, lastUpdate = 1\<rparr>)]\<rparr>))))
       = [Num 50, Num 100, Num 150]"
proof -
  let ?f = "\<lparr>name_f = ''a.bin'', type_f = ''bin'', content = replicate 150000 (0::byte)\<rparr>"
  let ?c = "\<lparr>open_c = True, sent = []\<rparr>"
  let ?s = "(initial\<lparr>connection := Some \<lparr>open_c = True, sent = []\<rparr>\<rparr>)"
  let ?fdh = "\<lparr>meta = \<lparr>fileId = ''x'', name = ''a.bin'', size_m = 150000, fileType = ''bin'',
                             totalChunks = 3\<rparr>,
                     chunks = [None, None, None :: bytes option], receivedSize = 0, lastUpdate = 1\<rparr>"
  let ?rh = "initial\<lparr>receivingFiles := [(''x'', ?fdh)]\<rparr>"
  let ?fd = "\<lparr>meta = \<lparr>fileId = ''y'', name = ''b'', size_m = 4, fileType = ''t'', totalChunks = 2\<rparr>,
                     chunks = [None, None :: bytes option], receivedSize = 0, lastUpdate = 1\<rparr>"
  let ?r = "initial\<lparr>receivingFiles := [(''y'', ?fd)]\<rparr>"
  let ?cl = "[(2, 0, [1, 2]), (3, 0, [1, 2]), (4, 1, [3, 4::byte])]"
  have h1: "0 < CHUNK_SIZE CONFIG" by (simp add: CONFIG_def)
  have cs: "CHUNK_SIZE CONFIG = 65536" by (simp add: CONFIG_def)
  have h2: "connection ?s = Some ?c" by simp
  have h3: "map_of (receivingFiles ?r) ''y'' = Some ?fd" by simp
  have h4: "0 < size_m (meta ?fd)" by simp
  have sz: "size_f ?f = 150000" by (simp add: size_f_def)
  have u: "[0..<3] = [0, 1, 2::nat]" by (simp add: upt_rec)
  note T = progress_monotone_full_at_last_chunk[OF h1 h2 h3 h4, where f = ?f and fid = "''x''" and cl = ?cl]
  from T[THEN conjunct1] obtain n s' where n: "totalChunksOf (size_f ?f) (CHUNK_SIZE CONFIG) = Some n"
    and r: "sendFile CONFIG ''x'' ?f ?s = Some (Inr s')"
    and p: "progressOf ''x'' (drop (length (ui ?s)) (ui s')) = map (\<lambda>k. percent (Suc k) n) [0..<n]"
    and honest: "\<forall>ts r0 fd0 cfg'.
                 length ts = n \<and> map_of (receivingFiles r0) ''x'' = Some fd0
                 \<and> receivedSize fd0 = 0 \<and> size_m (meta fd0) = size_f ?f \<longrightarrow>
                 progressOf ''x'' (drop (length (ui r0))
                   (ui (run cfg' (map2 Data ts
                         (map (\<lambda>j. FileChunk ''x'' j
                                 (take (CHUNK_SIZE CONFIG) (drop (j * CHUNK_SIZE CONFIG) (content ?f))))
                            [0..<n])) r0)))
                   = map (\<lambda>k. percent (min (Suc k * CHUNK_SIZE CONFIG) (size_f ?f)) (size_f ?f)) [0..<n]
                 \<and> (\<forall>k<n. percent (min (Suc k * CHUNK_SIZE CONFIG) (size_f ?f)) (size_f ?f) = Num 100
                            \<longleftrightarrow> Suc k = n)"
    by (elim exE conjE)
  from n have n3: "n = 3" by (simp add: totalChunksOf_def sz cs)
  from p have A: "progressOf ''x'' (drop (length (ui ?s)) (ui s'))
            = [Num (100 / 3), Num (200 / 3), Num 100]"
    unfolding n3 u by (simp add: percent_def)
  have pre: "length [2, 3, 4::nat] = n \<and> map_of (receivingFiles ?rh) ''x'' = Some ?fdh
                 \<and> receivedSize ?fdh = 0 \<and> size_m (meta ?fdh) = size_f ?f"
    by (simp add: n3 sz)
  from honest pre
  have "progressOf ''x'' (drop (length (ui ?rh))
                   (ui (run CONFIG (map2 Data [2, 3, 4]
                         (map (\<lambda>j. FileChunk ''x'' j
                                 (take (CHUNK_SIZE CONFIG) (drop (j * CHUNK_SIZE CONFIG) (content ?f))))
                            [0..<n])) ?rh)))
                   = map (\<lambda>k. percent (min (Suc k * CHUNK_SIZE CONFIG) (size_f ?f)) (size_f ?f)) [0..<n]"
    by blast
  then have B: "progressOf ''x'' (drop (length (ui ?rh))
        (ui (run CONFIG (map2 Data [2, 3, 4] [FileChunk ''x'' 0 (replicate 65536 0), FileChunk ''x'' 1 (replicate 65536 0),
               FileChunk ''x'' 2 (replicate 18928 0)]) ?rh)))
       = [Num (16384 / 375), Num (32768 / 375), Num 100]"
    unfolding n3 u cs sz by (simp add: percent_def)
  note T2 = T[THEN conjunct2, THEN conjunct1]
  from T2 have C: "progressOf ''y'' (drop (length (ui ?r)) (ui (run CONFIG (chunkEvents ''y'' ?cl) ?r)))
       = [Num 50, Num 100, Num 150]"
    by (simp add: u byteCount_def percent_def)
  from r A have "\<exists>s'. sendFile CONFIG ''x'' ?f ?s = Some (Inr s')
        \<and> progressOf ''x'' (drop (length (ui ?s)) (ui s'))
            = [Num (100 / 3), Num (200 / 3), Num 100]"
    by (intro exI conjI)
  with B C show ?thesis by (intro conjI)
qed

end
